theory Spec2Isabelle
  imports Complex_Main
begin

section \<open>Data model\<close>

text \<open>
  Mongoose documents are records, string enums are datatypes, an ObjectId is a natural
  number. A JavaScript Number that only ever holds a counter, a stored trust score or a
  rounded score is an \<open>int\<close>. The Numbers of the score arithmetic (weights, their sums, the
  quotient and its product with 100) are IEEE 754 doubles: each is the real number it
  stands for, and every division, addition and multiplication rounds its exact result to
  the nearest double (see \<open>double_round\<close> below). Distances and radii are reals; the
  trigonometric functions have no exact double counterpart here.
  A field that may be absent (\<open>undefined\<close>, \<open>null\<close>) is an \<open>option\<close>.
\<close>

type_synonym objectId = nat

type_synonym coords = "real \<times> real"  \<comment> \<open>\<open>[longitude, latitude]\<close>\<close>

datatype reputation = New | Trusted | Verified_user | Expert

datatype channel = Email | Sms | Push

text \<open>models/User.js: the fields of \<open>userSchema\<close> that the scoring and the alert code read.\<close>

record user =
  uid :: objectId
  email :: string
  phone :: "string option"
  coordinates :: coords
  trustScore :: int
  reportCount :: int
  verificationCount :: int
  reputation :: reputation
  notifications_email :: bool
  notifications_sms :: bool
  notifications_push :: bool
  alertRadius :: real
  fraudTypes :: "string list"
  fcmToken :: "string option"
  isActive :: bool

text \<open>
  models/FraudReport.js: one element of \<open>verification.verifiedBy\<close>, and the fields of
  \<open>fraudReportSchema\<close> read by the code below. The nested paths \<open>verification.trustScore\<close>,
  \<open>evidenceData.phoneNumber\<close>, \<open>location.coordinates\<close> are flattened with an underscore.
\<close>

datatype vote = Confirm | Deny | Uncertain

datatype verification_status = Pending | Verified | Disputed | False_positive

datatype level = Low | Medium | High | Critical

record verification_entry =
  entry_user :: objectId
  vote :: vote
  comment :: "string option"
  verifiedAt :: nat

record fraudReport =
  rid :: objectId
  reportedBy :: objectId
  fraudType :: string
  evidence_phoneNumber :: "string option"
  evidence_email :: "string option"
  location_coordinates :: coords
  verification_trustScore :: int
  verification_verificationCount :: int
  verification_verifiedBy :: "verification_entry list"
  verification_status :: verification_status
  priority :: level

text \<open>
  models/Alert.js. The title and the message of an alert are presentation strings built
  from templates; no operation below reads them and they are left out of the record.
\<close>

datatype alertType =
  Proximity | Phone_match | Email_match | Website_match | Pattern_match | High_risk

datatype matchCriteria =
  Location real coords | PhoneNumber string | EmailAddress string

record channel_state =
  sent :: bool
  sentAt :: "nat option"

record alert =
  alert_user :: objectId
  alert_fraudReport :: objectId
  alertType :: alertType
  severity :: level
  matchCriteria :: matchCriteria
  channels_email :: channel_state
  channels_sms :: channel_state
  channels_push :: channel_state

datatype error = NotANumber

section \<open>User reputation (models/User.js, updateTrustScore)\<close>

definition updateTrustScore :: "user \<Rightarrow> user" where
  "updateTrustScore u =
     (let baseScore = 50;
          reportBonus = min (reportCount u * 2) 30;
          verificationBonus = min (verificationCount u * 3) 40;
          ts = min (baseScore + reportBonus + verificationBonus) 100
      in u\<lparr>trustScore := ts,
            reputation := (if ts \<ge> 90 then Expert
                           else if ts \<ge> 75 then Verified_user
                           else if ts \<ge> 60 then Trusted
                           else New)\<rparr>)"

text \<open>
  routes/alerts.js, the two places that change a user's counters: submitting a report and
  casting a first vote on a report. Both recompute the score from the counters.
\<close>

definition recordReport :: "user \<Rightarrow> user" where
  "recordReport u = updateTrustScore (u\<lparr>reportCount := reportCount u + 1\<rparr>)"

definition recordVerification :: "user \<Rightarrow> user" where
  "recordVerification u = updateTrustScore (u\<lparr>verificationCount := verificationCount u + 1\<rparr>)"

section \<open>Report trust score (models/FraudReport.js, calculateTrustScore)\<close>

subsection \<open>Double-precision arithmetic\<close>

text \<open>
  A double has a significand of 53 bits. For \<open>x\<close> with \<open>2^e \<le> |x| < 2^(e+1)\<close> the doubles
  around \<open>x\<close> are the multiples of \<open>2^(e-52)\<close>, and the result of an operation is the
  multiple nearest to the exact result, a tie going to the even multiple. The exponent
  range is not bounded in the model: overflow and subnormal numbers need magnitudes
  beyond \<open>2^1023\<close> or below \<open>2^(-1022)\<close>, which sums and quotients of trust scores do
  not reach.
\<close>

definition round_half_even :: "real \<Rightarrow> int" where
  "round_half_even m =
     (let f = \<lfloor>m\<rfloor>
      in if m - real_of_int f < 1 / 2 then f
         else if 1 / 2 < m - real_of_int f then f + 1
         else if even f then f else f + 1)"

definition double_exponent :: "real \<Rightarrow> int" where
  "double_exponent x = \<lfloor>log 2 \<bar>x\<bar>\<rfloor>"

definition double_round :: "real \<Rightarrow> real" where
  "double_round x =
     (if x = 0 then 0
      else let ulp = 2 powr real_of_int (double_exponent x - 52)
           in real_of_int (round_half_even (x / ulp)) * ulp)"

definition fadd :: "real \<Rightarrow> real \<Rightarrow> real" where
  "fadd a b = double_round (a + b)"

definition fmul :: "real \<Rightarrow> real \<Rightarrow> real" where
  "fmul a b = double_round (a * b)"

text \<open>
  A division whose divisor is zero gives NaN or an infinity in JavaScript; the model makes
  it the value \<open>None\<close>, so that a zero divisor is a visible branch. \<open>Math.round\<close> gives
  the nearest integer of a double, a half going towards plus infinity, without a rounding
  error of its own.
\<close>

definition js_div :: "real \<Rightarrow> real \<Rightarrow> real option" where
  "js_div a b = (if b = 0 then None else Some (double_round (a / b)))"

definition js_round :: "real \<Rightarrow> int" where
  "js_round x = \<lfloor>x + 1 / 2\<rfloor>"

subsection \<open>The score\<close>

text \<open>
  After \<open>populate('verification.verifiedBy.user', 'trustScore')\<close> the field \<open>user\<close> of an
  entry is the voter's document, or \<open>null\<close> when no such user exists. The populated view is
  a lookup \<open>trustOf\<close> from the voter's id to the trustScore of the document.
\<close>

definition populate :: "user list \<Rightarrow> objectId \<Rightarrow> int option" where
  "populate users i = map_option trustScore (find (\<lambda>u. uid u = i) users)"

text \<open>\<open>verification.user.trustScore / 100\<close>, a double.\<close>

definition voterWeight :: "int \<Rightarrow> real" where
  "voterWeight ts = double_round (real_of_int ts / 100)"

text \<open>
  The body of the \<open>forEach\<close>; the accumulator is \<open>(weightedConfirm, weightedDeny, totalWeight)\<close>.
  The guard \<open>verification.user && verification.user.trustScore\<close> is false for a missing
  document and for a trustScore of 0.
\<close>

definition accumulate ::
  "(objectId \<Rightarrow> int option) \<Rightarrow> verification_entry \<Rightarrow> real \<times> real \<times> real \<Rightarrow> real \<times> real \<times> real" where
  "accumulate trustOf v acc =
     (case acc of (weightedConfirm, weightedDeny, totalWeight) \<Rightarrow>
        (case trustOf (entry_user v) of
           None \<Rightarrow> acc
         | Some ts \<Rightarrow>
             if ts = 0 then acc
             else
               let weight = voterWeight ts;
                   totalWeight' = fadd totalWeight weight
               in if vote v = Confirm
                    then (fadd weightedConfirm weight, weightedDeny, totalWeight')
                  else if vote v = Deny
                    then (weightedConfirm, fadd weightedDeny weight, totalWeight')
                  else (weightedConfirm, weightedDeny, totalWeight')))"

definition statusOf :: "int \<Rightarrow> verification_status" where
  "statusOf ts = (if ts \<ge> 80 then Verified else if ts \<le> 20 then Disputed else Pending)"

definition calculateTrustScore ::
  "(objectId \<Rightarrow> int option) \<Rightarrow> fraudReport \<Rightarrow> error + fraudReport" where
  "calculateTrustScore trustOf r =
     (if verification_verificationCount r = 0
      then Inr (r\<lparr>verification_trustScore := 30\<rparr>)
      else
        let confirmVotes = length (filter (\<lambda>v. vote v = Confirm) (verification_verifiedBy r));
            denyVotes = length (filter (\<lambda>v. vote v = Deny) (verification_verifiedBy r));
            totalVotes = verification_verificationCount r
        in case fold (accumulate trustOf) (verification_verifiedBy r) (0, 0, 0) of
             (weightedConfirm, weightedDeny, totalWeight) \<Rightarrow>
               (case (if totalWeight > 0
                      then js_div weightedConfirm totalWeight
                      else js_div (real confirmVotes) (real_of_int totalVotes)) of
                  None \<Rightarrow> Inl NotANumber
                | Some q \<Rightarrow>
                    let ts = js_round (fmul q 100)
                    in Inr (r\<lparr>verification_trustScore := ts,
                              verification_status := statusOf ts\<rparr>)))"

text \<open>
  The quantities of the scoring rule as the specification words them, in exact
  arithmetic: every entry whose voter has a known trustScore weighs trustScore/100;
  \<open>weightedConfirm\<close> sums the weights of the confirm votes, \<open>totalWeight\<close> the weights of
  all of them.
\<close>

definition spec_weight :: "(objectId \<Rightarrow> int option) \<Rightarrow> verification_entry \<Rightarrow> real" where
  "spec_weight trustOf v =
     (case trustOf (entry_user v) of None \<Rightarrow> 0 | Some ts \<Rightarrow> real_of_int ts / 100)"

definition spec_weightedConfirm ::
  "(objectId \<Rightarrow> int option) \<Rightarrow> verification_entry list \<Rightarrow> real" where
  "spec_weightedConfirm trustOf vs =
     sum_list (map (spec_weight trustOf) (filter (\<lambda>v. vote v = Confirm) vs))"

definition spec_totalWeight ::
  "(objectId \<Rightarrow> int option) \<Rightarrow> verification_entry list \<Rightarrow> real" where
  "spec_totalWeight trustOf vs = sum_list (map (spec_weight trustOf) vs)"

text \<open>
  The same quantities in double arithmetic: an entry is resolvable when its voter's
  document exists with a trustScore other than 0; its weight is the double nearest to
  trustScore/100; a sum adds the weights one after the other, from 0, in the order of the
  entries, rounding after each addition.
\<close>

definition resolvable :: "(objectId \<Rightarrow> int option) \<Rightarrow> verification_entry \<Rightarrow> bool" where
  "resolvable trustOf v =
     (case trustOf (entry_user v) of None \<Rightarrow> False | Some ts \<Rightarrow> ts \<noteq> 0)"

definition double_weight :: "(objectId \<Rightarrow> int option) \<Rightarrow> verification_entry \<Rightarrow> real" where
  "double_weight trustOf v =
     (case trustOf (entry_user v) of None \<Rightarrow> 0 | Some ts \<Rightarrow> voterWeight ts)"

definition double_sum :: "real \<Rightarrow> real list \<Rightarrow> real" where
  "double_sum start ws = foldl fadd start ws"

definition double_weightedConfirm ::
  "(objectId \<Rightarrow> int option) \<Rightarrow> verification_entry list \<Rightarrow> real" where
  "double_weightedConfirm trustOf vs =
     double_sum 0 (map (double_weight trustOf)
                     (filter (\<lambda>v. resolvable trustOf v \<and> vote v = Confirm) vs))"

definition double_totalWeight ::
  "(objectId \<Rightarrow> int option) \<Rightarrow> verification_entry list \<Rightarrow> real" where
  "double_totalWeight trustOf vs =
     double_sum 0 (map (double_weight trustOf) (filter (resolvable trustOf) vs))"

section \<open>Voting (routes/alerts.js, POST /reports/:id/verify)\<close>

text \<open>
  \<open>verifiedBy.find(...)\<close> returns the first entry of the voter and the handler assigns to
  the fields of that very object, so the first match is rewritten where it stands.
\<close>

fun update_first :: "('a \<Rightarrow> bool) \<Rightarrow> ('a \<Rightarrow> 'a) \<Rightarrow> 'a list \<Rightarrow> 'a list" where
  "update_first P f [] = []"
| "update_first P f (x # xs) = (if P x then f x # xs else x # update_first P f xs)"

definition applyVote ::
  "fraudReport \<Rightarrow> objectId \<Rightarrow> vote \<Rightarrow> string option \<Rightarrow> nat \<Rightarrow> fraudReport" where
  "applyVote report userId vt cmt now =
     (case find (\<lambda>v. entry_user v = userId) (verification_verifiedBy report) of
        Some existingVerification \<Rightarrow>
          report\<lparr>verification_verifiedBy :=
            update_first (\<lambda>v. entry_user v = userId)
              (\<lambda>v. v\<lparr>vote := vt, comment := cmt, verifiedAt := now\<rparr>)
              (verification_verifiedBy report)\<rparr>
      | None \<Rightarrow>
          report\<lparr>verification_verifiedBy :=
              verification_verifiedBy report
                @ [\<lparr>entry_user = userId, vote = vt, comment = cmt, verifiedAt = now\<rparr>],
            verification_verificationCount := verification_verificationCount report + 1\<rparr>)"

text \<open>The handler up to \<open>report.save()\<close>: the vote, then the recomputed score.\<close>

definition verifyReport ::
  "(objectId \<Rightarrow> int option) \<Rightarrow> fraudReport \<Rightarrow> objectId \<Rightarrow> vote \<Rightarrow> string option \<Rightarrow> nat
     \<Rightarrow> error + fraudReport" where
  "verifyReport trustOf report userId vt cmt now =
     calculateTrustScore trustOf (applyVote report userId vt cmt now)"

text \<open>A sequence of votes on one report, each \<open>(voter, vote, comment, time)\<close>.\<close>

type_synonym vote_call = "objectId \<times> vote \<times> string option \<times> nat"

definition applyVotes :: "fraudReport \<Rightarrow> vote_call list \<Rightarrow> fraudReport" where
  "applyVotes report calls =
     fold (\<lambda>(userId, vt, cmt, now) r. applyVote r userId vt cmt now) calls report"

section \<open>Report submission (routes/alerts.js, POST /report)\<close>

text \<open>
  \<open>new FraudReport({...})\<close> fills the \<open>verification\<close> sub-document from the schema defaults
  (trustScore 0, verificationCount 0, no entries, status pending) and the handler then
  sets the priority from the fraud type and the declared impact before it saves the
  document. The handler does not call \<open>calculateTrustScore\<close>.
\<close>

record impact =
  financialLoss :: "real option"
  affectedUsers :: "real option"

definition exceeds :: "real option \<Rightarrow> real \<Rightarrow> bool" where
  "exceeds x bound = (case x of None \<Rightarrow> False | Some y \<Rightarrow> y > bound)"

definition submitReport ::
  "objectId \<Rightarrow> objectId \<Rightarrow> string \<Rightarrow> coords \<Rightarrow> string option \<Rightarrow> string option
     \<Rightarrow> impact option \<Rightarrow> fraudReport" where
  "submitReport newId reporter ftype location phoneNumber emailAddr imp =
     \<lparr>rid = newId,
      reportedBy = reporter,
      fraudType = ftype,
      evidence_phoneNumber = phoneNumber,
      evidence_email = emailAddr,
      location_coordinates = location,
      verification_trustScore = 0,
      verification_verificationCount = 0,
      verification_verifiedBy = [],
      verification_status = Pending,
      priority =
        (if ftype = ''ponzi'' \<or> ftype = ''investment'' then High
         else if (case imp of None \<Rightarrow> False | Some i \<Rightarrow> exceeds (financialLoss i) 10000)
           then Critical
         else if (case imp of None \<Rightarrow> False | Some i \<Rightarrow> exceeds (affectedUsers i) 10)
           then High
         else Medium)\<rparr>"

section \<open>Channel eligibility (models/Alert.js, shouldSendViaChannel)\<close>

definition notifications :: "user \<Rightarrow> channel \<Rightarrow> bool" where
  "notifications prefs c =
     (case c of Email \<Rightarrow> notifications_email prefs
              | Sms \<Rightarrow> notifications_sms prefs
              | Push \<Rightarrow> notifications_push prefs)"

definition channels :: "alert \<Rightarrow> channel \<Rightarrow> channel_state" where
  "channels a c =
     (case c of Email \<Rightarrow> channels_email a | Sms \<Rightarrow> channels_sms a | Push \<Rightarrow> channels_push a)"

definition shouldSendViaChannel :: "alert \<Rightarrow> channel \<Rightarrow> user \<Rightarrow> bool" where
  "shouldSendViaChannel a c userPreferences =
     (if \<not> notifications userPreferences c then False
      else if sent (channels a c) then False
      else if c = Sms \<and> severity a = Low then False
      else True)"

section \<open>Alert creation and dispatch (services/notificationService.js)\<close>

text \<open>A string that is present and not empty is truthy.\<close>

definition truthy :: "string option \<Rightarrow> bool" where
  "truthy s = (case s of None \<Rightarrow> False | Some t \<Rightarrow> t \<noteq> [])"

text \<open>
  The three transports (\<open>sendPushNotification\<close>, \<open>sendEmail\<close>, \<open>sendSMS\<close>) answer true or
  false and never throw; what they answer is outside the program, so it is a parameter
  \<open>send\<close>. \<open>now\<close> stands for \<open>new Date()\<close>.
\<close>

type_synonym sender = "channel \<Rightarrow> user \<Rightarrow> alert \<Rightarrow> bool"

definition markSent :: "nat \<Rightarrow> channel_state \<Rightarrow> channel_state" where
  "markSent now st = st\<lparr>sent := True, sentAt := Some now\<rparr>"

text \<open>
  The three eligibility tests run before any transport answers, so they all read the
  alert as it was passed in; each answer then writes its own channel only.
\<close>

definition sendAlertNotifications :: "sender \<Rightarrow> nat \<Rightarrow> user \<Rightarrow> alert \<Rightarrow> alert" where
  "sendAlertNotifications send now usr a =
     (let viaPush = shouldSendViaChannel a Push usr \<and> truthy (fcmToken usr);
          viaEmail = shouldSendViaChannel a Email usr;
          viaSms = shouldSendViaChannel a Sms usr \<and> truthy (phone usr)
                     \<and> severity a \<in> {High, Critical};
          a1 = (if viaPush \<and> send Push usr a
                then a\<lparr>channels_push := markSent now (channels_push a)\<rparr> else a);
          a2 = (if viaEmail \<and> send Email usr a
                then a1\<lparr>channels_email := markSent now (channels_email a1)\<rparr> else a1);
          a3 = (if viaSms \<and> send Sms usr a
                then a2\<lparr>channels_sms := markSent now (channels_sms a2)\<rparr> else a2)
      in a3)"

definition getSeverityFromPriority :: "level \<Rightarrow> level" where
  "getSeverityFromPriority p =
     (case p of Low \<Rightarrow> Low | Medium \<Rightarrow> Medium | High \<Rightarrow> High | Critical \<Rightarrow> Critical)"

text \<open>\<open>new Alert({...})\<close>: the given fields and the schema defaults for the channels.\<close>

definition unsent :: channel_state where
  "unsent = \<lparr>sent = False, sentAt = None\<rparr>"

definition newAlert :: "objectId \<Rightarrow> objectId \<Rightarrow> alertType \<Rightarrow> level \<Rightarrow> matchCriteria \<Rightarrow> alert" where
  "newAlert usr rep ty sev crit =
     \<lparr>alert_user = usr, alert_fraudReport = rep, alertType = ty, severity = sev,
      matchCriteria = crit,
      channels_email = unsent, channels_sms = unsent, channels_push = unsent\<rparr>"

subsection \<open>Great-circle distance\<close>

definition toRadians :: "real \<Rightarrow> real" where
  "toRadians degrees = degrees * (pi / 180)"

definition atan2 :: "real \<Rightarrow> real \<Rightarrow> real" where
  "atan2 y x =
     (if x > 0 then arctan (y / x)
      else if x < 0 then (if y \<ge> 0 then arctan (y / x) + pi else arctan (y / x) - pi)
      else if y > 0 then pi / 2
      else if y < 0 then - (pi / 2)
      else 0)"

definition calculateDistance :: "coords \<Rightarrow> coords \<Rightarrow> real" where
  "calculateDistance coords1 coords2 =
     (case coords1 of (lon1, lat1) \<Rightarrow>
      case coords2 of (lon2, lat2) \<Rightarrow>
        let R = 6371;
            dLat = toRadians (lat2 - lat1);
            dLon = toRadians (lon2 - lon1);
            a = sin (dLat / 2) * sin (dLat / 2)
                + cos (toRadians lat1) * cos (toRadians lat2) * sin (dLon / 2) * sin (dLon / 2);
            c = 2 * atan2 (sqrt a) (sqrt (1 - a))
        in R * c)"

subsection \<open>Proximity alerts\<close>

text \<open>
  \<open>User.find\<close> with \<open>$near\<close> and \<open>$maxDistance\<close> is evaluated by the database on its own
  geodesic distance, in metres; that distance is the parameter \<open>geoNear\<close>. The local
  constant \<open>alertRadius = 10\<close> of the source is \<open>queryRadius\<close> here, the name
  \<open>alertRadius\<close> being the user's preference.
\<close>

definition queryRadius :: real where
  "queryRadius = 10"

definition nearbyUsers ::
  "(coords \<Rightarrow> coords \<Rightarrow> real) \<Rightarrow> user list \<Rightarrow> fraudReport \<Rightarrow> user list" where
  "nearbyUsers geoNear users fraudReport =
     filter (\<lambda>u. geoNear (location_coordinates fraudReport) (coordinates u) \<le> queryRadius * 1000
                 \<and> isActive u \<and> notifications_push u) users"

text \<open>The callback mapped over \<open>nearbyUsers\<close>, up to the construction of the alert.\<close>

definition proximityAlert :: "fraudReport \<Rightarrow> user \<Rightarrow> alert option" where
  "proximityAlert fraudReport usr =
     (if uid usr = reportedBy fraudReport then None
      else if length (fraudTypes usr) > 0 \<and> fraudType fraudReport \<notin> set (fraudTypes usr)
        then None
      else
        let distance = calculateDistance (coordinates usr) (location_coordinates fraudReport)
        in if distance > alertRadius usr then None
           else Some (newAlert (uid usr) (rid fraudReport) Proximity
                        (getSeverityFromPriority (priority fraudReport))
                        (Location distance (location_coordinates fraudReport))))"

text \<open>
  The alert store is the list of saved Alert documents. \<open>alert.save()\<close> inserts the
  document; the second \<open>save\<close> at the end of \<open>sendAlertNotifications\<close> rewrites the same
  document with its channel state, so the store receives the alert as it is after the
  dispatch. The callbacks run concurrently in the source; they share no data, and the
  model runs them in the order of the query result.
\<close>

definition createProximityAlerts ::
  "(coords \<Rightarrow> coords \<Rightarrow> real) \<Rightarrow> sender \<Rightarrow> nat \<Rightarrow> user list \<Rightarrow> fraudReport
     \<Rightarrow> alert list \<Rightarrow> alert list" where
  "createProximityAlerts geoNear send now users fraudReport store =
     fold (\<lambda>usr st.
             case proximityAlert fraudReport usr of
               None \<Rightarrow> st
             | Some a \<Rightarrow> st @ [sendAlertNotifications send now usr a])
          (nearbyUsers geoNear users fraudReport) store"

text \<open>The documents that one run of the callback saves: one alert, or none.\<close>

definition proximityBatch :: "sender \<Rightarrow> nat \<Rightarrow> fraudReport \<Rightarrow> user \<Rightarrow> alert list" where
  "proximityBatch send now r usr =
     (case proximityAlert r usr of None \<Rightarrow> [] | Some a \<Rightarrow> [sendAlertNotifications send now usr a])"

subsection \<open>Identifier-match alerts\<close>

text \<open>The array \<open>alerts\<close> built for one user: a phone match, then an email match.\<close>

definition matchAlerts :: "fraudReport \<Rightarrow> user \<Rightarrow> alert list" where
  "matchAlerts fraudReport usr =
     (case evidence_phoneNumber fraudReport of
        None \<Rightarrow> []
      | Some phoneNumber \<Rightarrow>
          if phoneNumber \<noteq> [] \<and> phone usr = Some phoneNumber
          then [newAlert (uid usr) (rid fraudReport) Phone_match Critical
                  (PhoneNumber phoneNumber)]
          else [])
     @ (case evidence_email fraudReport of
          None \<Rightarrow> []
        | Some emailAddr \<Rightarrow>
            if emailAddr \<noteq> [] \<and> email usr = emailAddr
            then [newAlert (uid usr) (rid fraudReport) Email_match Critical
                    (EmailAddress emailAddr)]
            else [])"

definition createMatchAlerts ::
  "sender \<Rightarrow> nat \<Rightarrow> user list \<Rightarrow> fraudReport \<Rightarrow> alert list \<Rightarrow> alert list" where
  "createMatchAlerts send now users fraudReport store =
     fold (\<lambda>usr st.
             fold (\<lambda>a st'. st' @ [sendAlertNotifications send now usr a])
                  (matchAlerts fraudReport usr) st)
          (filter isActive users) store"

text \<open>The key under which the specification wants alerts to be unique.\<close>

definition triple :: "alert \<Rightarrow> objectId \<times> objectId \<times> alertType" where
  "triple a = (alert_user a, alert_fraudReport a, alertType a)"

section \<open>Scenario data\<close>

text \<open>Concrete users, reports and votes on which the results below are evaluated.\<close>

text \<open>
  A user document with the schema defaults for the notification preferences (email and
  push on, SMS off), no fraud-type filter and a push token, its score recomputed from the
  given counters.
\<close>

definition mkUser :: "objectId \<Rightarrow> string \<Rightarrow> string option \<Rightarrow> coords \<Rightarrow> int \<Rightarrow> int \<Rightarrow> real \<Rightarrow> user" where
  "mkUser i mail ph loc reports verifications radius =
     updateTrustScore
       \<lparr>uid = i, email = mail, phone = ph, coordinates = loc,
        trustScore = 50, reportCount = reports, verificationCount = verifications,
        reputation = New,
        notifications_email = True, notifications_sms = False, notifications_push = True,
        alertRadius = radius, fraudTypes = [], fcmToken = Some ''token'', isActive = True\<rparr>"

definition alice :: user where
  "alice = mkUser 1 ''alice@example.org'' (Some ''+15551234567'') (0, 0) 2 4 10"

definition bob :: user where
  "bob = mkUser 2 ''bob@example.org'' None (0, 1 / 5) 20 20 50"

definition carol :: user where
  "carol = mkUser 3 ''carol@example.org'' None (0, 0) 0 0 10"

text \<open>
  A report submitted by carol at the origin, naming alice's phone number and bob's email
  address as evidence; and an earlier report by carol at the same place.
\<close>

definition report0 :: fraudReport where
  "report0 = submitReport 7 3 ''phishing'' (0, 0) (Some ''+15551234567'')
               (Some ''bob@example.org'') None"

definition report1 :: fraudReport where
  "report1 = submitReport 8 3 ''lottery'' (0, 0) None None None"

text \<open>Voters A (trustScore 80, confirm) and B (trustScore 40, deny).\<close>

definition trustAB :: "objectId \<Rightarrow> int option" where
  "trustAB i = (if i = 11 then Some 80 else if i = 12 then Some 40 else None)"

definition reportAB :: fraudReport where
  "reportAB = applyVotes report0 [(11, Confirm, None, 100), (12, Deny, Some ''no'', 101)]"

text \<open>
  Transports that always succeed, and a database that measures the same great-circle
  distance as \<open>calculateDistance\<close>, in metres. Bob stands 0.2 degrees of latitude north
  of the report, about 22 km.
\<close>

definition always :: sender where
  "always c u a = True"

definition geoMetres :: "coords \<Rightarrow> coords \<Rightarrow> real" where
  "geoMetres p q = 1000 * calculateDistance p q"

text \<open>A user with every channel enabled, and a low-severity alert addressed to that user.\<close>

definition dave :: user where
  "dave = (mkUser 4 ''dave@example.org'' (Some ''+15550000004'') (0, 0) 0 0 10)
            \<lparr>notifications_sms := True\<rparr>"

definition lowAlert :: alert where
  "lowAlert = newAlert 4 7 Proximity Low (Location 0 (0, 0))"

text \<open>
  Two voters whose trust scores 60 and 100 come from \<open>updateTrustScore\<close> (five reports;
  fifteen reports and fourteen verifications), the first confirming and the second
  denying.
\<close>

definition voters60 :: "user list" where
  "voters60 = [mkUser 21 ''v21@example.org'' None (0, 0) 5 0 10,
               mkUser 22 ''v22@example.org'' None (0, 0) 15 14 10]"

definition report60 :: fraudReport where
  "report60 = applyVotes report0 [(21, Confirm, None, 100), (22, Deny, None, 101)]"

text \<open>
  Forty voters, numbered from 100, whose accounts no longer exist; the first 23 confirm,
  the other 17 deny.
\<close>

definition votes40 :: "vote_call list" where
  "votes40 = map (\<lambda>i. (100 + i, if i < 23 then Confirm else Deny, None, i)) [0..<40]"

definition report40 :: fraudReport where
  "report40 = applyVotes report0 votes40"

section \<open>Properties: double rounding\<close>

lemma round_half_even_of_int: "round_half_even (real_of_int k) = k"
  by (simp add: round_half_even_def)

lemma round_half_even_bounds:
  "real_of_int (round_half_even m) \<le> m + 1 / 2" "m - 1 / 2 \<le> real_of_int (round_half_even m)"
  unfolding round_half_even_def Let_def by (auto; linarith)+

lemma round_half_even_ge_int:
  assumes "real_of_int k \<le> m"
  shows "k \<le> round_half_even m"
proof -
  have "k \<le> \<lfloor>m\<rfloor>" using assms by (simp add: le_floor_iff)
  then show ?thesis unfolding round_half_even_def Let_def by auto
qed

lemma round_half_even_le_int:
  assumes "m \<le> real_of_int k"
  shows "round_half_even m \<le> k"
proof (cases "m = real_of_int k")
  case True
  then show ?thesis by (simp add: round_half_even_of_int)
next
  case False
  then have "m < real_of_int k" using assms by simp
  then have "\<lfloor>m\<rfloor> < k" by (simp add: floor_less_iff)
  then show ?thesis unfolding round_half_even_def Let_def by auto
qed

lemma round_half_even_mono:
  assumes "a \<le> b"
  shows "round_half_even a \<le> round_half_even b"
proof (cases "\<lfloor>a\<rfloor> = \<lfloor>b\<rfloor>")
  case True
  then show ?thesis using assms unfolding round_half_even_def Let_def by auto
next
  case False
  then have "\<lfloor>a\<rfloor> < \<lfloor>b\<rfloor>" using assms floor_mono [of a b] by linarith
  then have "\<lfloor>a\<rfloor> + 1 \<le> \<lfloor>b\<rfloor>" by simp
  moreover have "round_half_even a \<le> \<lfloor>a\<rfloor> + 1" unfolding round_half_even_def Let_def by auto
  moreover have "\<lfloor>b\<rfloor> \<le> round_half_even b" unfolding round_half_even_def Let_def by auto
  ultimately show ?thesis by linarith
qed

lemma double_exponent_bounds:
  assumes "x \<noteq> 0"
  shows "2 powr real_of_int (double_exponent x) \<le> \<bar>x\<bar>"
    and "\<bar>x\<bar> < 2 powr real_of_int (double_exponent x + 1)"
  using assms floor_log_eq_powr_iff [of "\<bar>x\<bar>" 2 "double_exponent x"]
  by (simp_all add: double_exponent_def)

lemma double_exponent_eq:
  assumes "2 powr real_of_int e \<le> \<bar>x\<bar>" and "\<bar>x\<bar> < 2 powr real_of_int (e + 1)"
  shows "double_exponent x = e"
proof -
  have "0 < \<bar>x\<bar>" using assms(1) powr_gt_zero [of 2 "real_of_int e"] by linarith
  then show ?thesis
    using assms floor_log_eq_powr_iff [of "\<bar>x\<bar>" 2 e] by (simp add: double_exponent_def)
qed

lemma double_round_eval:
  assumes "2 powr real_of_int e \<le> \<bar>x\<bar>" and "\<bar>x\<bar> < 2 powr real_of_int (e + 1)"
  shows "double_round x =
     real_of_int (round_half_even (x / 2 powr real_of_int (e - 52))) * 2 powr real_of_int (e - 52)"
proof -
  have "x \<noteq> 0" using assms(1) powr_gt_zero [of 2 "real_of_int e"] by auto
  then show ?thesis
    by (simp add: double_round_def double_exponent_eq [OF assms] Let_def)
qed


lemma double_round_at:
  assumes "u = 2 powr real_of_int (e - 52)"
    and "4503599627370496 * u \<le> \<bar>x\<bar>" and "\<bar>x\<bar> < 9007199254740992 * u"
  shows "double_round x = real_of_int (round_half_even (x / u)) * u"
proof -
  have "2 powr (real_of_int e - 52) * 2 powr 52 = 2 powr (real_of_int e - 52 + 52)"
    by (rule powr_add [symmetric])
  then have lo: "2 powr real_of_int e = 4503599627370496 * u"
    using assms(1) by simp
  have "2 powr (real_of_int e - 52) * 2 powr 53 = 2 powr (real_of_int e - 52 + 53)"
    by (rule powr_add [symmetric])
  then have hi: "2 powr real_of_int (e + 1) = 9007199254740992 * u"
    using assms(1) by (simp add: add.commute)
  show ?thesis
    using double_round_eval [of e x] assms lo hi by simp
qed

lemma ulp_scale:
  "2 powr real_of_int e = 4503599627370496 * 2 powr real_of_int (e - 52)"
  "2 powr real_of_int (e + 1) = 9007199254740992 * 2 powr real_of_int (e - 52)"
proof -
  have "2 powr (real_of_int e - 52) * 2 powr 52 = 2 powr (real_of_int e - 52 + 52)"
    by (rule powr_add [symmetric])
  then show "2 powr real_of_int e = 4503599627370496 * 2 powr real_of_int (e - 52)"
    by simp
  have "2 powr (real_of_int e - 52) * 2 powr 53 = 2 powr (real_of_int e - 52 + 53)"
    by (rule powr_add [symmetric])
  then show "2 powr real_of_int (e + 1) = 9007199254740992 * 2 powr real_of_int (e - 52)"
    by (simp add: add.commute)
qed

lemma double_round_binade:
  assumes "0 < x"
  shows "2 powr real_of_int (double_exponent x) \<le> double_round x"
    and "double_round x \<le> 2 powr real_of_int (double_exponent x + 1)"
proof -
  define e where "e = double_exponent x"
  define u where "u = 2 powr real_of_int (e - 52)"
  have u: "0 < u" by (simp add: u_def)
  have x0: "x \<noteq> 0" using assms by simp
  have lo: "4503599627370496 * u \<le> x" and hi: "x < 9007199254740992 * u"
    using double_exponent_bounds [OF x0] assms ulp_scale [of e]
    by (simp_all add: e_def [symmetric] u_def)
  have dr: "double_round x = real_of_int (round_half_even (x / u)) * u"
    using x0 by (simp add: double_round_def Let_def e_def u_def)
  have "real_of_int 4503599627370496 \<le> x / u" using lo u by (simp add: le_divide_eq)
  then have "4503599627370496 \<le> round_half_even (x / u)" by (rule round_half_even_ge_int)
  then have "4503599627370496 \<le> real_of_int (round_half_even (x / u))" by linarith
  then have "4503599627370496 * u \<le> real_of_int (round_half_even (x / u)) * u"
    using u by (simp add: mult_right_mono)
  then show "2 powr real_of_int (double_exponent x) \<le> double_round x"
    using ulp_scale(1) [of e] by (simp add: dr e_def [symmetric] u_def)
  have "x / u \<le> real_of_int 9007199254740992" using hi u by (simp add: divide_le_eq)
  then have "round_half_even (x / u) \<le> 9007199254740992" by (rule round_half_even_le_int)
  then have "real_of_int (round_half_even (x / u)) \<le> 9007199254740992" by linarith
  then have "real_of_int (round_half_even (x / u)) * u \<le> 9007199254740992 * u"
    using u by (simp add: mult_right_mono)
  then show "double_round x \<le> 2 powr real_of_int (double_exponent x + 1)"
    using ulp_scale(2) [of e] by (simp add: dr e_def [symmetric] u_def)
qed

lemma double_round_pos: "0 < x \<Longrightarrow> 0 < double_round x"
  using double_round_binade(1) [of x] powr_gt_zero [of 2 "real_of_int (double_exponent x)"]
  by linarith

lemma double_round_nonneg: "0 \<le> x \<Longrightarrow> 0 \<le> double_round x"
  using double_round_pos [of x] by (cases "x = 0") (simp_all add: double_round_def)

lemma double_exponent_mono:
  assumes "0 < x" and "x \<le> y"
  shows "double_exponent x \<le> double_exponent y"
  unfolding double_exponent_def using assms by (intro floor_mono) simp

lemma double_round_mono_pos:
  assumes "0 < x" and "x \<le> y"
  shows "double_round x \<le> double_round y"
proof (cases "double_exponent x = double_exponent y")
  case True
  define u where "u = 2 powr real_of_int (double_exponent y - 52)"
  have u: "0 < u" by (simp add: u_def)
  have "x / u \<le> y / u" using assms u by (simp add: divide_right_mono)
  then have "round_half_even (x / u) \<le> round_half_even (y / u)" by (rule round_half_even_mono)
  then have "real_of_int (round_half_even (x / u)) * u \<le> real_of_int (round_half_even (y / u)) * u"
    using u by (simp add: mult_right_mono)
  then show ?thesis
    using assms True by (simp add: double_round_def Let_def u_def)
next
  case False
  then have "double_exponent x + 1 \<le> double_exponent y"
    using double_exponent_mono [OF assms] by simp
  then have "2 powr real_of_int (double_exponent x + 1) \<le> 2 powr real_of_int (double_exponent y)"
    by simp
  moreover have "double_round x \<le> 2 powr real_of_int (double_exponent x + 1)"
    using assms by (intro double_round_binade) simp
  moreover have "2 powr real_of_int (double_exponent y) \<le> double_round y"
    using assms by (intro double_round_binade) simp
  ultimately show ?thesis by linarith
qed

lemma double_round_mono:
  assumes "0 \<le> x" and "x \<le> y"
  shows "double_round x \<le> double_round y"
proof (cases "x = 0")
  case True
  then show ?thesis using assms double_round_nonneg [of y] by (simp add: double_round_def)
next
  case False
  then show ?thesis using assms by (intro double_round_mono_pos) simp_all
qed

lemma double_round_idem_pos:
  assumes "0 < x"
  shows "double_round (double_round x) = double_round x"
proof -
  define e where "e = double_exponent x"
  define u where "u = 2 powr real_of_int (e - 52)"
  define k where "k = round_half_even (x / u)"
  have u: "0 < u" by (simp add: u_def)
  have dr: "double_round x = real_of_int k * u"
    using assms by (simp add: double_round_def Let_def e_def u_def k_def)
  have lo: "2 powr real_of_int e \<le> real_of_int k * u"
    and hi: "real_of_int k * u \<le> 2 powr real_of_int (e + 1)"
    using double_round_binade [OF assms] by (simp_all add: dr e_def)
  show ?thesis
  proof (cases "real_of_int k * u < 2 powr real_of_int (e + 1)")
    case True
    have pos: "0 < real_of_int k * u"
      using dr double_round_pos [OF assms] by simp
    have "double_round (real_of_int k * u)
        = real_of_int (round_half_even (real_of_int k * u / u)) * u"
      unfolding u_def
      using lo True pos by (intro double_round_eval) (simp_all add: u_def)
    then show ?thesis using u by (simp add: dr round_half_even_of_int)
  next
    case False
    then have top: "real_of_int k * u = 2 powr real_of_int (e + 1)" using hi by simp
    have "double_round (2 powr real_of_int (e + 1))
        = real_of_int (round_half_even (2 powr real_of_int (e + 1) / 2 powr real_of_int (e + 1 - 52)))
            * 2 powr real_of_int (e + 1 - 52)"
      by (rule double_round_eval) simp_all
    moreover have "2 powr real_of_int (e + 1) / 2 powr real_of_int (e + 1 - 52)
        = real_of_int 4503599627370496"
      using ulp_scale(1) [of "e + 1"] by simp
    ultimately have "double_round (2 powr real_of_int (e + 1))
        = 4503599627370496 * 2 powr real_of_int (e + 1 - 52)"
      by (simp only: round_half_even_of_int)
    then show ?thesis
      using ulp_scale(1) [of "e + 1"] by (simp add: dr top)
  qed
qed

lemma double_round_idem: "0 \<le> x \<Longrightarrow> double_round (double_round x) = double_round x"
  using double_round_idem_pos [of x] by (cases "x = 0") (simp_all add: double_round_def)

lemma double_round_half: "double_round (1 / 2) = 1 / 2"
  by (subst double_round_at [where e = "- 1" and u = "1 / 9007199254740992"])
    (simp_all add: powr_minus round_half_even_def)

lemma double_round_one: "double_round 1 = 1"
  by (subst double_round_at [where e = 0 and u = "1 / 4503599627370496"])
    (simp_all add: powr_minus round_half_even_def)

lemma double_round_hundred: "double_round 100 = 100"
  by (subst double_round_at [where e = 6 and u = "1 / 70368744177664"])
    (simp_all add: powr_minus round_half_even_def)

lemma fadd_zero_left: "0 \<le> w \<Longrightarrow> fadd 0 (double_round w) = double_round w"
  by (simp add: fadd_def double_round_idem)

section \<open>Properties: user reputation\<close>

lemma trustScore_updateTrustScore:
  "trustScore (updateTrustScore u) =
     min (50 + min (reportCount u * 2) 30 + min (verificationCount u * 3) 40) 100"
  by (simp add: updateTrustScore_def Let_def)

lemma reputation_updateTrustScore:
  "reputation (updateTrustScore u) =
     (if trustScore (updateTrustScore u) \<ge> 90 then Expert
      else if trustScore (updateTrustScore u) \<ge> 75 then Verified_user
      else if trustScore (updateTrustScore u) \<ge> 60 then Trusted
      else New)"
  by (simp add: updateTrustScore_def Let_def)

text \<open>
  C9. The reputation recomputation sets
  \<open>trustScore = min (50 + min (reportCount * 2) 30 + min (verificationCount * 3) 40) 100\<close>;
  the score never exceeds 100, does not decrease when either counter grows, and the tier is
  expert from 90, verified from 75, trusted from 60 and new below. The other fields of the
  user are untouched.
\<close>

theorem updateTrustScore_formula:
  "trustScore (updateTrustScore u) =
     min (50 + min (reportCount u * 2) 30 + min (verificationCount u * 3) 40) 100
   \<and> trustScore (updateTrustScore u) \<le> 100
   \<and> (reportCount u \<le> reportCount u' \<and> verificationCount u \<le> verificationCount u'
        \<longrightarrow> trustScore (updateTrustScore u) \<le> trustScore (updateTrustScore u'))
   \<and> reputation (updateTrustScore u) =
       (if trustScore (updateTrustScore u) \<ge> 90 then Expert
        else if trustScore (updateTrustScore u) \<ge> 75 then Verified_user
        else if trustScore (updateTrustScore u) \<ge> 60 then Trusted
        else New)
   \<and> reportCount (updateTrustScore u) = reportCount u
   \<and> verificationCount (updateTrustScore u) = verificationCount u"
proof -
  have mono: "reportCount u \<le> reportCount u' \<and> verificationCount u \<le> verificationCount u'
        \<longrightarrow> trustScore (updateTrustScore u) \<le> trustScore (updateTrustScore u')"
    unfolding trustScore_updateTrustScore by auto
  have keep: "reportCount (updateTrustScore u) = reportCount u
      \<and> verificationCount (updateTrustScore u) = verificationCount u"
    by (simp add: updateTrustScore_def Let_def)
  show ?thesis
    using mono keep reputation_updateTrustScore [of u] trustScore_updateTrustScore [of u]
    by simp
qed

theorem updateTrustScore_formula_witness:
  "reportCount carol \<le> reportCount alice \<and> verificationCount carol \<le> verificationCount alice
   \<and> trustScore (updateTrustScore carol) = 50 \<and> trustScore (updateTrustScore alice) = 66
   \<and> trustScore (updateTrustScore carol) \<le> trustScore (updateTrustScore alice)
   \<and> reputation (updateTrustScore alice) = Trusted
   \<and> reputation (updateTrustScore carol) = New"
  using updateTrustScore_formula [of carol alice] updateTrustScore_formula [of alice alice]
  by (simp add: alice_def carol_def mkUser_def updateTrustScore_def Let_def)

text \<open>
  C10. With non-negative counters the recomputed user trustScore lies between 50 and 100, so
  the weight \<open>trustScore / 100\<close> of such a voter is at least one half, and that is the
  amount the loop of \<open>calculateTrustScore\<close> adds to \<open>totalWeight\<close> for an entry of this
  voter. The two handlers that change the counters only add one to a counter before they
  recompute, so the counters stay non-negative and the score stays in that range.
\<close>

theorem updateTrustScore_floor:
  assumes "0 \<le> reportCount u" and "0 \<le> verificationCount u"
  shows "50 \<le> trustScore (updateTrustScore u)
       \<and> trustScore (updateTrustScore u) \<le> 100
       \<and> 1 / 2 \<le> voterWeight (trustScore (updateTrustScore u))
       \<and> (trustOf (entry_user v) = Some (trustScore (updateTrustScore u)) \<longrightarrow>
            (\<exists>wc' wd'. accumulate trustOf v (wc, wd, tw)
                 = (wc', wd', fadd tw (voterWeight (trustScore (updateTrustScore u))))))
       \<and> 50 \<le> trustScore (recordReport u) \<and> trustScore (recordReport u) \<le> 100
       \<and> 0 \<le> reportCount (recordReport u) \<and> 0 \<le> verificationCount (recordReport u)
       \<and> 50 \<le> trustScore (recordVerification u) \<and> trustScore (recordVerification u) \<le> 100
       \<and> 0 \<le> reportCount (recordVerification u)
       \<and> 0 \<le> verificationCount (recordVerification u)"
proof -
  have rr: "50 \<le> trustScore (recordReport u) \<and> trustScore (recordReport u) \<le> 100
       \<and> 0 \<le> reportCount (recordReport u) \<and> 0 \<le> verificationCount (recordReport u)"
    using assms by (simp add: recordReport_def updateTrustScore_def Let_def)
  have rv: "50 \<le> trustScore (recordVerification u) \<and> trustScore (recordVerification u) \<le> 100
       \<and> 0 \<le> reportCount (recordVerification u)
       \<and> 0 \<le> verificationCount (recordVerification u)"
    using assms by (simp add: recordVerification_def updateTrustScore_def Let_def)
  have lo: "50 \<le> trustScore (updateTrustScore u)"
    using assms unfolding trustScore_updateTrustScore by simp
  have hi: "trustScore (updateTrustScore u) \<le> 100"
    unfolding trustScore_updateTrustScore by simp
  have "1 / 2 \<le> real_of_int (trustScore (updateTrustScore u)) / 100"
    using lo by simp
  then have "double_round (1 / 2)
      \<le> double_round (real_of_int (trustScore (updateTrustScore u)) / 100)"
    by (intro double_round_mono) simp_all
  then have w: "1 / 2 \<le> voterWeight (trustScore (updateTrustScore u))"
    by (simp add: voterWeight_def double_round_half)
  have acc: "trustOf (entry_user v) = Some (trustScore (updateTrustScore u)) \<longrightarrow>
            (\<exists>wc' wd'. accumulate trustOf v (wc, wd, tw)
                 = (wc', wd', fadd tw (voterWeight (trustScore (updateTrustScore u)))))"
    using lo by (auto simp: accumulate_def Let_def)
  from lo hi w acc rr rv show ?thesis by blast
qed

theorem updateTrustScore_floor_witness:
  "0 \<le> reportCount carol \<and> 0 \<le> verificationCount carol
   \<and> populate [carol] 3 = Some 50
   \<and> trustScore (updateTrustScore carol) = 50
   \<and> voterWeight (trustScore (updateTrustScore carol)) = 1 / 2
   \<and> (\<exists>wc' wd'. accumulate (populate [carol])
          \<lparr>entry_user = 3, vote = Uncertain, comment = None, verifiedAt = 0\<rparr> (0, 0, 0)
        = (wc', wd', fadd 0 (voterWeight (trustScore (updateTrustScore carol)))))"
proof -
  have c: "0 \<le> reportCount carol" "0 \<le> verificationCount carol"
    by (simp_all add: carol_def mkUser_def updateTrustScore_def Let_def)
  have p: "populate [carol] 3 = Some 50"
    by (simp add: populate_def carol_def mkUser_def updateTrustScore_def Let_def)
  have t: "trustScore (updateTrustScore carol) = 50"
    by (simp add: carol_def mkUser_def updateTrustScore_def Let_def)
  show ?thesis
    using c p t
      updateTrustScore_floor [OF c, of "populate [carol]"
        "\<lparr>entry_user = 3, vote = Uncertain, comment = None, verifiedAt = 0\<rparr>" 0 0 0]
    by (simp add: voterWeight_def double_round_half)
qed

section \<open>Properties: channel eligibility\<close>

text \<open>
  C8. A channel is eligible for an alert exactly when the recipient has the channel
  enabled, the alert's state for the channel is not yet sent, and the channel is not SMS
  with a low-severity alert. Hence SMS is never eligible for a low-severity alert and a
  channel marked sent is never eligible again.
\<close>

theorem shouldSendViaChannel_iff:
  "(shouldSendViaChannel a c prefs \<longleftrightarrow>
      notifications prefs c \<and> \<not> sent (channels a c) \<and> (c = Sms \<longrightarrow> severity a \<noteq> Low))
   \<and> (severity a = Low \<longrightarrow> \<not> shouldSendViaChannel a Sms prefs)
   \<and> (sent (channels a c) \<longrightarrow> \<not> shouldSendViaChannel a c prefs)"
  by (simp add: shouldSendViaChannel_def)

theorem shouldSendViaChannel_iff_witness:
  "severity lowAlert = Low \<and> notifications dave Sms
   \<and> \<not> sent (channels lowAlert Sms)
   \<and> \<not> shouldSendViaChannel lowAlert Sms dave
   \<and> shouldSendViaChannel lowAlert Email dave
   \<and> sent (channels (sendAlertNotifications always 5 dave lowAlert) Email)
   \<and> \<not> shouldSendViaChannel (sendAlertNotifications always 5 dave lowAlert) Email dave"
proof -
  have low: "severity lowAlert = Low"
    by (simp add: lowAlert_def newAlert_def)
  have pre: "notifications dave Sms \<and> \<not> sent (channels lowAlert Sms)
      \<and> notifications dave Email \<and> \<not> sent (channels lowAlert Email)"
    by (simp add: notifications_def channels_def dave_def mkUser_def updateTrustScore_def
        Let_def lowAlert_def newAlert_def unsent_def)
  have mail: "shouldSendViaChannel lowAlert Email dave"
    using pre shouldSendViaChannel_iff [of lowAlert Email dave] by simp
  have sent: "sent (channels (sendAlertNotifications always 5 dave lowAlert) Email)"
    using mail
    by (simp add: sendAlertNotifications_def Let_def always_def channels_def markSent_def)
  show ?thesis
    using low pre mail sent
      shouldSendViaChannel_iff [of lowAlert Sms dave]
      shouldSendViaChannel_iff [of "sendAlertNotifications always 5 dave lowAlert" Email dave]
    by simp
qed

section \<open>Properties: voting\<close>


lemma length_update_first: "length (update_first P f xs) = length xs"
  by (induction xs) auto

lemma map_update_first:
  "(\<And>x. g (f x) = g x) \<Longrightarrow> map g (update_first P f xs) = map g xs"
  by (induction xs) auto

lemma find_update_first_same:
  "find P xs = Some x \<Longrightarrow> P (f x) \<Longrightarrow> find P (update_first P f xs) = Some (f x)"
  by (induction xs) (auto split: if_splits)

lemma find_update_first_other:
  "(\<And>x. P x \<Longrightarrow> \<not> Q x \<and> \<not> Q (f x)) \<Longrightarrow> find Q (update_first P f xs) = find Q xs"
  by (induction xs) auto

lemma filter_update_first_other:
  "(\<And>x. P x \<Longrightarrow> \<not> Q x \<and> \<not> Q (f x)) \<Longrightarrow> filter Q (update_first P f xs) = filter Q xs"
  by (induction xs) auto

lemma find_None_iff_users:
  "find (\<lambda>v. entry_user v = u) vs = None \<longleftrightarrow> u \<notin> set (map entry_user vs)"
  by (induction vs) auto

lemma find_append_new:
  "k \<notin> set (map g xs) \<Longrightarrow> g y = k \<Longrightarrow> find (\<lambda>v. g v = k) (xs @ [y]) = Some y"
  by (induction xs) auto

lemma applyVote_existing:
  assumes "find (\<lambda>v. entry_user v = u) (verification_verifiedBy r) = Some e"
  shows "verification_verifiedBy (applyVote r u vt cmt now) =
           update_first (\<lambda>v. entry_user v = u)
              (\<lambda>v. v\<lparr>vote := vt, comment := cmt, verifiedAt := now\<rparr>) (verification_verifiedBy r)"
    and "verification_verificationCount (applyVote r u vt cmt now) = verification_verificationCount r"
  using assms by (simp_all add: applyVote_def)

lemma applyVote_absent:
  assumes "find (\<lambda>v. entry_user v = u) (verification_verifiedBy r) = None"
  shows "verification_verifiedBy (applyVote r u vt cmt now) =
           verification_verifiedBy r @ [\<lparr>entry_user = u, vote = vt, comment = cmt, verifiedAt = now\<rparr>]"
    and "verification_verificationCount (applyVote r u vt cmt now) = verification_verificationCount r + 1"
  using assms by (simp_all add: applyVote_def)

lemma applyVote_entry:
  "find (\<lambda>v. entry_user v = u) (verification_verifiedBy (applyVote r u vt cmt now))
     = Some \<lparr>entry_user = u, vote = vt, comment = cmt, verifiedAt = now\<rparr>"
proof (cases "find (\<lambda>v. entry_user v = u) (verification_verifiedBy r)")
  case None
  then have "u \<notin> set (map entry_user (verification_verifiedBy r))"
    by (simp add: find_None_iff_users)
  then have "find (\<lambda>v. entry_user v = u) (verification_verifiedBy r @ [\<lparr>entry_user = u, vote = vt, comment = cmt, verifiedAt = now\<rparr>])
     = Some \<lparr>entry_user = u, vote = vt, comment = cmt, verifiedAt = now\<rparr>"
    by (rule find_append_new) simp
  then show ?thesis using applyVote_absent(1) [OF None] by simp
next
  case (Some e)
  then have eu: "entry_user e = u"
    by (auto simp: find_Some_iff)
  have "find (\<lambda>v. entry_user v = u) (update_first (\<lambda>v. entry_user v = u)
              (\<lambda>v. v\<lparr>vote := vt, comment := cmt, verifiedAt := now\<rparr>) (verification_verifiedBy r))
        = Some (e\<lparr>vote := vt, comment := cmt, verifiedAt := now\<rparr>)"
    using Some eu by (intro find_update_first_same) auto
  moreover have "e\<lparr>vote := vt, comment := cmt, verifiedAt := now\<rparr>
      = \<lparr>entry_user = u, vote = vt, comment = cmt, verifiedAt = now\<rparr>"
    using eu by (cases e) simp
  ultimately show ?thesis using applyVote_existing(1) [OF Some] by simp
qed

lemma applyVote_other_entry:
  assumes "u' \<noteq> u"
  shows "find (\<lambda>v. entry_user v = u') (verification_verifiedBy (applyVote r u vt cmt now))
     = find (\<lambda>v. entry_user v = u') (verification_verifiedBy r)"
proof (cases "find (\<lambda>v. entry_user v = u) (verification_verifiedBy r)")
  case None
  have "find (\<lambda>v. entry_user v = u') (vs @ [\<lparr>entry_user = u, vote = vt, comment = cmt, verifiedAt = now\<rparr>])
      = find (\<lambda>v. entry_user v = u') vs" for vs
    using assms by (induction vs) auto
  then show ?thesis using applyVote_absent(1) [OF None] by simp
next
  case (Some e)
  show ?thesis
    unfolding applyVote_existing(1) [OF Some]
    using assms by (intro find_update_first_other) auto
qed

lemma applyVote_users:
  "map entry_user (verification_verifiedBy (applyVote r u vt cmt now)) =
     (if u \<in> set (map entry_user (verification_verifiedBy r))
      then map entry_user (verification_verifiedBy r)
      else map entry_user (verification_verifiedBy r) @ [u])"
proof (cases "find (\<lambda>v. entry_user v = u) (verification_verifiedBy r)")
  case None
  then show ?thesis
    using applyVote_absent(1) [OF None] by (simp add: find_None_iff_users)
next
  case (Some e)
  then have "u \<in> set (map entry_user (verification_verifiedBy r))"
    using find_None_iff_users [of u "verification_verifiedBy r"] by simp
  then show ?thesis
    unfolding applyVote_existing(1) [OF Some] by (simp add: map_update_first)
qed

lemma applyVote_distinct:
  "distinct (map entry_user (verification_verifiedBy r)) \<Longrightarrow>
   distinct (map entry_user (verification_verifiedBy (applyVote r u vt cmt now)))"
  by (simp add: applyVote_users)

lemma applyVotes_Nil: "applyVotes r [] = r"
  by (simp add: applyVotes_def)

lemma applyVotes_Cons:
  "applyVotes r ((u, vt, cmt, now) # calls) = applyVotes (applyVote r u vt cmt now) calls"
  by (simp add: applyVotes_def)

lemma applyVotes_append:
  "applyVotes r (xs @ ys) = applyVotes (applyVotes r xs) ys"
  by (simp add: applyVotes_def)

lemma applyVotes_distinct:
  "distinct (map entry_user (verification_verifiedBy r)) \<Longrightarrow>
   distinct (map entry_user (verification_verifiedBy (applyVotes r calls)))"
proof (induction calls arbitrary: r)
  case Nil
  then show ?case by (simp add: applyVotes_Nil)
next
  case (Cons c calls)
  obtain u vt cmt now where c: "c = (u, vt, cmt, now)" by (cases c) auto
  show ?case unfolding c applyVotes_Cons
    by (rule Cons.IH) (rule applyVote_distinct [OF Cons.prems])
qed

lemma applyVotes_other_entry:
  "u' \<notin> fst ` set calls \<Longrightarrow>
   find (\<lambda>v. entry_user v = u') (verification_verifiedBy (applyVotes r calls))
     = find (\<lambda>v. entry_user v = u') (verification_verifiedBy r)"
proof (induction calls arbitrary: r)
  case Nil
  then show ?case by (simp add: applyVotes_Nil)
next
  case (Cons c calls)
  obtain u vt cmt now where c: "c = (u, vt, cmt, now)" by (cases c) auto
  from Cons.prems c have ne: "u' \<noteq> u" and rest: "u' \<notin> fst ` set calls" by auto
  show ?case unfolding c applyVotes_Cons
    using Cons.IH [OF rest] applyVote_other_entry [OF ne] by simp
qed

lemma distinct_filter_le_1:
  "distinct (map g xs) \<Longrightarrow> length (filter (\<lambda>x. g x = k) xs) \<le> 1"
proof (induction xs)
  case Nil
  then show ?case by simp
next
  case (Cons x xs)
  show ?case
  proof (cases "g x = k")
    case True
    with Cons.prems have "k \<notin> g ` set xs" by auto
    then have "filter (\<lambda>x. g x = k) xs = []" by (auto simp: filter_empty_conv)
    with True show ?thesis by simp
  next
    case False
    with Cons show ?thesis by simp
  qed
qed


lemma applyVotes_at_most_one:
  "distinct (map entry_user (verification_verifiedBy r)) \<Longrightarrow>
   length (filter (\<lambda>v. entry_user v = w) (verification_verifiedBy (applyVotes r calls))) \<le> 1"
  by (rule distinct_filter_le_1) (rule applyVotes_distinct)

text \<open>
  C2. One vote (\<open>applyVote\<close>): when the voter already has an entry, the list of voters is
  the same list (nothing appended, every position kept), the entries of the other voters
  are unchanged and \<open>verificationCount\<close> is unchanged; when the voter has none, exactly one
  new entry is appended and \<open>verificationCount\<close> grows by one. In both cases the voter's
  entry then carries the vote, comment and time just given. Any sequence of votes on a
  report with at most one entry per voter, in particular on a freshly submitted report,
  leaves at most one entry per voter, and the entry of a voter is the one written by that
  voter's latest vote.
\<close>

theorem applyVote_one_entry_per_voter:
  fixes r :: fraudReport and u :: objectId and vt :: vote and cmt :: "string option" and now :: nat
  defines "r' \<equiv> applyVote r u vt cmt now"
  defines "entry \<equiv> \<lparr>entry_user = u, vote = vt, comment = cmt, verifiedAt = now\<rparr>"
  shows
   "(u \<in> entry_user ` set (verification_verifiedBy r) \<longrightarrow>
        map entry_user (verification_verifiedBy r') = map entry_user (verification_verifiedBy r)
      \<and> filter (\<lambda>v. entry_user v \<noteq> u) (verification_verifiedBy r')
          = filter (\<lambda>v. entry_user v \<noteq> u) (verification_verifiedBy r)
      \<and> verification_verificationCount r' = verification_verificationCount r)
    \<and> (u \<notin> entry_user ` set (verification_verifiedBy r) \<longrightarrow>
        verification_verifiedBy r' = verification_verifiedBy r @ [entry]
      \<and> verification_verificationCount r' = verification_verificationCount r + 1)
    \<and> find (\<lambda>v. entry_user v = u) (verification_verifiedBy r') = Some entry
    \<and> (distinct (map entry_user (verification_verifiedBy r)) \<longrightarrow>
        (\<forall>w. length (filter (\<lambda>v. entry_user v = w)
                (verification_verifiedBy (applyVotes r calls))) \<le> 1))
    \<and> (\<forall>w. length (filter (\<lambda>v. entry_user v = w)
                (verification_verifiedBy
                   (applyVotes (submitReport newId reporter ftype loc ph em imp) calls))) \<le> 1)
    \<and> (u \<notin> fst ` set later \<longrightarrow>
        find (\<lambda>v. entry_user v = u)
          (verification_verifiedBy (applyVotes r (earlier @ (u, vt, cmt, now) # later)))
        = Some entry)"
proof -
  have again: "u \<in> entry_user ` set (verification_verifiedBy r) \<longrightarrow>
        map entry_user (verification_verifiedBy r') = map entry_user (verification_verifiedBy r)
      \<and> filter (\<lambda>v. entry_user v \<noteq> u) (verification_verifiedBy r')
          = filter (\<lambda>v. entry_user v \<noteq> u) (verification_verifiedBy r)
      \<and> verification_verificationCount r' = verification_verificationCount r"
  proof
    assume mem: "u \<in> entry_user ` set (verification_verifiedBy r)"
    then obtain e where e: "find (\<lambda>v. entry_user v = u) (verification_verifiedBy r) = Some e"
      using find_None_iff_users [of u "verification_verifiedBy r"] by auto
    have "filter (\<lambda>v. entry_user v \<noteq> u) (update_first (\<lambda>v. entry_user v = u)
              (\<lambda>v. v\<lparr>vote := vt, comment := cmt, verifiedAt := now\<rparr>) (verification_verifiedBy r))
          = filter (\<lambda>v. entry_user v \<noteq> u) (verification_verifiedBy r)"
      by (intro filter_update_first_other) auto
    then have others: "filter (\<lambda>v. entry_user v \<noteq> u) (verification_verifiedBy r')
          = filter (\<lambda>v. entry_user v \<noteq> u) (verification_verifiedBy r)"
      unfolding r'_def using applyVote_existing(1) [OF e] by simp
    have voters: "map entry_user (verification_verifiedBy r')
          = map entry_user (verification_verifiedBy r)"
      unfolding r'_def using mem by (simp add: applyVote_users)
    have count: "verification_verificationCount r' = verification_verificationCount r"
      unfolding r'_def by (rule applyVote_existing(2) [OF e])
    from voters others count
    show "map entry_user (verification_verifiedBy r') = map entry_user (verification_verifiedBy r)
      \<and> filter (\<lambda>v. entry_user v \<noteq> u) (verification_verifiedBy r')
          = filter (\<lambda>v. entry_user v \<noteq> u) (verification_verifiedBy r)
      \<and> verification_verificationCount r' = verification_verificationCount r"
      by blast
  qed
  have first: "u \<notin> entry_user ` set (verification_verifiedBy r) \<longrightarrow>
        verification_verifiedBy r' = verification_verifiedBy r @ [entry]
      \<and> verification_verificationCount r' = verification_verificationCount r + 1"
    unfolding r'_def entry_def
    using find_None_iff_users [of u "verification_verifiedBy r"] applyVote_absent [of u r]
    by simp
  have latest: "find (\<lambda>v. entry_user v = u) (verification_verifiedBy r') = Some entry"
    unfolding r'_def entry_def by (rule applyVote_entry)
  have inv: "distinct (map entry_user (verification_verifiedBy r)) \<longrightarrow>
        (\<forall>w. length (filter (\<lambda>v. entry_user v = w)
                (verification_verifiedBy (applyVotes r calls))) \<le> 1)"
    using applyVotes_at_most_one by blast
  have "distinct (map entry_user
           (verification_verifiedBy (submitReport newId reporter ftype loc ph em imp)))"
    by (simp add: submitReport_def)
  then have fresh: "\<forall>w. length (filter (\<lambda>v. entry_user v = w)
                (verification_verifiedBy
                   (applyVotes (submitReport newId reporter ftype loc ph em imp) calls))) \<le> 1"
    using applyVotes_at_most_one by blast
  have seq: "u \<notin> fst ` set later \<longrightarrow>
        find (\<lambda>v. entry_user v = u)
          (verification_verifiedBy (applyVotes r (earlier @ (u, vt, cmt, now) # later)))
        = Some entry"
    unfolding entry_def
    by (simp add: applyVotes_append applyVotes_Cons applyVotes_other_entry applyVote_entry)
  from again first latest inv fresh seq show ?thesis by blast
qed


theorem applyVote_one_entry_per_voter_witness:
  "11 \<in> entry_user ` set (verification_verifiedBy reportAB)
   \<and> 13 \<notin> entry_user ` set (verification_verifiedBy reportAB)
   \<and> distinct (map entry_user (verification_verifiedBy reportAB))
   \<and> verification_verifiedBy (applyVote reportAB 11 Deny (Some ''changed'') 102)
       = [\<lparr>entry_user = 11, vote = Deny, comment = Some ''changed'', verifiedAt = 102\<rparr>,
          \<lparr>entry_user = 12, vote = Deny, comment = Some ''no'', verifiedAt = 101\<rparr>]
   \<and> verification_verificationCount (applyVote reportAB 11 Deny (Some ''changed'') 102) = 2
   \<and> verification_verificationCount (applyVote reportAB 13 Uncertain None 103) = 3
   \<and> length (filter (\<lambda>v. entry_user v = 11)
         (verification_verifiedBy (applyVotes reportAB [(11, Deny, Some ''changed'', 102)]))) \<le> 1
   \<and> (12::nat) \<notin> fst ` set [(11::nat, Deny, Some ''changed'', 102::nat)]
   \<and> find (\<lambda>v. entry_user v = 12)
         (verification_verifiedBy
            (applyVotes report0 ([(11, Confirm, None, 100)] @ (12, Deny, Some ''no'', 101)
               # [(11, Deny, Some ''changed'', 102)])))
       = Some \<lparr>entry_user = 12, vote = Deny, comment = Some ''no'', verifiedAt = 101\<rparr>"
proof -
  have vs: "verification_verifiedBy reportAB
      = [\<lparr>entry_user = 11, vote = Confirm, comment = None, verifiedAt = 100\<rparr>,
         \<lparr>entry_user = 12, vote = Deny, comment = Some ''no'', verifiedAt = 101\<rparr>]"
    by (simp add: reportAB_def applyVotes_def applyVote_def report0_def submitReport_def)
  have n: "verification_verificationCount reportAB = 2"
    by (simp add: reportAB_def applyVotes_def applyVote_def report0_def submitReport_def)
  have pre: "11 \<in> entry_user ` set (verification_verifiedBy reportAB)"
    "13 \<notin> entry_user ` set (verification_verifiedBy reportAB)"
    "distinct (map entry_user (verification_verifiedBy reportAB))"
    "(12::nat) \<notin> fst ` set [(11::nat, Deny, Some ''changed'', 102::nat)]"
    by (simp_all add: vs)
  have upd: "verification_verifiedBy (applyVote reportAB 11 Deny (Some ''changed'') 102)
       = [\<lparr>entry_user = 11, vote = Deny, comment = Some ''changed'', verifiedAt = 102\<rparr>,
          \<lparr>entry_user = 12, vote = Deny, comment = Some ''no'', verifiedAt = 101\<rparr>]"
    by (simp add: applyVote_def vs)
  show ?thesis
    using pre vs n upd
      applyVote_one_entry_per_voter [of 11 reportAB Deny "Some ''changed''" 102
        "[(11, Deny, Some ''changed'', 102)]" 0 0 "''x''" "(0, 0)" None None None "[]" "[]"]
      applyVote_one_entry_per_voter [of 13 reportAB Uncertain None 103
        "[]" 0 0 "''x''" "(0, 0)" None None None "[]" "[]"]
      applyVote_one_entry_per_voter [of 12 report0 Deny "Some ''no''" 101
        "[]" 0 0 "''x''" "(0, 0)" None None None "[(11, Deny, Some ''changed'', 102)]" "[(11, Confirm, None, 100)]"]
    by simp
qed

section \<open>Properties: report trust score\<close>

subsection \<open>Doubles of the scenarios\<close>

lemma dbl_w80: "double_round (4 / 5) = 3602879701896397 / 4503599627370496"
  by (subst double_round_at [where e = "-1" and u = "1 / 9007199254740992"])
    (simp_all add: powr_minus round_half_even_def)

lemma dbl_w80_again: "double_round (3602879701896397 / 4503599627370496) = 3602879701896397 / 4503599627370496"
  by (subst double_round_at [where e = "-1" and u = "1 / 9007199254740992"])
    (simp_all add: powr_minus round_half_even_def)

lemma dbl_w40: "double_round (2 / 5) = 3602879701896397 / 9007199254740992"
  by (subst double_round_at [where e = "-2" and u = "1 / 18014398509481984"])
    (simp_all add: powr_minus round_half_even_def)

lemma dbl_tw_AB: "double_round (10808639105689191 / 9007199254740992) = 1351079888211149 / 1125899906842624"
  by (subst double_round_at [where e = "0" and u = "1 / 4503599627370496"])
    (simp_all add: powr_minus round_half_even_def)

lemma dbl_q_AB: "double_round (3602879701896397 / 5404319552844596) = 6004799503160661 / 9007199254740992"
  by (subst double_round_at [where e = "-1" and u = "1 / 9007199254740992"])
    (simp_all add: powr_minus round_half_even_def)

lemma dbl_x_AB: "double_round (150119987579016525 / 2251799813685248) = 2345624805922133 / 35184372088832"
  by (subst double_round_at [where e = "6" and u = "1 / 70368744177664"])
    (simp_all add: powr_minus round_half_even_def)

lemma dbl_w60: "double_round (3 / 5) = 5404319552844595 / 9007199254740992"
  by (subst double_round_at [where e = "-1" and u = "1 / 9007199254740992"])
    (simp_all add: powr_minus round_half_even_def)

lemma dbl_w60_again: "double_round (5404319552844595 / 9007199254740992) = 5404319552844595 / 9007199254740992"
  by (subst double_round_at [where e = "-1" and u = "1 / 9007199254740992"])
    (simp_all add: powr_minus round_half_even_def)

lemma dbl_tw_60: "double_round (14411518807585587 / 9007199254740992) = 3602879701896397 / 2251799813685248"
  by (subst double_round_at [where e = "0" and u = "1 / 4503599627370496"])
    (simp_all add: powr_minus round_half_even_def)

lemma dbl_q_60: "double_round (5404319552844595 / 14411518807585588) = 6755399441055743 / 18014398509481984"
  by (subst double_round_at [where e = "-2" and u = "1 / 18014398509481984"])
    (simp_all add: powr_minus round_half_even_def)

lemma dbl_x_60: "double_round (168884986026393575 / 4503599627370496) = 5277655813324799 / 140737488355328"
  by (subst double_round_at [where e = "5" and u = "1 / 140737488355328"])
    (simp_all add: powr_minus round_half_even_def)

lemma dbl_q_40: "double_round (23 / 40) = 2589569785738035 / 4503599627370496"
  by (subst double_round_at [where e = "-1" and u = "1 / 9007199254740992"])
    (simp_all add: powr_minus round_half_even_def)

lemma dbl_x_40: "double_round (64739244643450875 / 1125899906842624) = 8092405580431359 / 140737488355328"
  by (subst double_round_at [where e = "5" and u = "1 / 140737488355328"])
    (simp_all add: powr_minus round_half_even_def)

lemma dbl_x_50: "double_round (50) = 50"
  by (subst double_round_at [where e = "5" and u = "1 / 140737488355328"])
    (simp_all add: powr_minus round_half_even_def)

lemmas scenario_doubles =
  dbl_w80 dbl_w80_again dbl_w40 dbl_tw_AB dbl_q_AB dbl_x_AB
  dbl_w60 dbl_w60_again dbl_tw_60 dbl_q_60 dbl_x_60 dbl_q_40 dbl_x_40 dbl_x_50
  double_round_half double_round_one double_round_hundred

subsection \<open>The loop\<close>

lemma accumulate_missing:
  "trustOf (entry_user v) = None \<Longrightarrow> accumulate trustOf v acc = acc"
  by (cases acc) (simp add: accumulate_def)

lemma accumulate_unresolvable:
  "\<not> resolvable trustOf v \<Longrightarrow> accumulate trustOf v acc = acc"
  by (cases acc; cases "trustOf (entry_user v)") (simp_all add: accumulate_def resolvable_def)

lemma accumulate_resolvable:
  "resolvable trustOf v \<Longrightarrow>
   accumulate trustOf v (wc, wd, tw) =
     (if vote v = Confirm then fadd wc (double_weight trustOf v) else wc,
      if vote v = Deny then fadd wd (double_weight trustOf v) else wd,
      fadd tw (double_weight trustOf v))"
  by (cases "trustOf (entry_user v)")
    (auto simp: accumulate_def resolvable_def double_weight_def Let_def)

lemma fold_accumulate:
  "\<exists>wd'. fold (accumulate trustOf) vs (wc, wd, tw) =
     (double_sum wc (map (double_weight trustOf)
                      (filter (\<lambda>v. resolvable trustOf v \<and> vote v = Confirm) vs)),
      wd',
      double_sum tw (map (double_weight trustOf) (filter (resolvable trustOf) vs)))"
proof (induction vs arbitrary: wc wd tw)
  case Nil
  then show ?case by (simp add: double_sum_def)
next
  case (Cons v vs)
  show ?case
  proof (cases "resolvable trustOf v")
    case False
    then show ?thesis
      using Cons.IH [of wc wd tw] by (simp add: accumulate_unresolvable)
  next
    case True
    show ?thesis
      using Cons.IH [of "if vote v = Confirm then fadd wc (double_weight trustOf v) else wc"
          "if vote v = Deny then fadd wd (double_weight trustOf v) else wd"
          "fadd tw (double_weight trustOf v)"] True
      by (cases "vote v = Confirm"; cases "vote v = Deny")
        (simp_all add: accumulate_resolvable double_sum_def)
  qed
qed

lemma fold_accumulate_start:
  "\<exists>wd'. fold (accumulate trustOf) vs (0, 0, 0) =
     (double_weightedConfirm trustOf vs, wd', double_totalWeight trustOf vs)"
  using fold_accumulate [of trustOf vs 0 0 0]
  by (simp add: double_weightedConfirm_def double_totalWeight_def)

lemma fold_accumulate_unresolved:
  "\<forall>v \<in> set vs. trustOf (entry_user v) = None \<Longrightarrow> fold (accumulate trustOf) vs acc = acc"
  by (induction vs arbitrary: acc) (simp_all add: accumulate_missing)

lemma double_totalWeight_unresolved:
  "\<forall>v \<in> set vs. trustOf (entry_user v) = None \<Longrightarrow> double_totalWeight trustOf vs = 0"
proof -
  assume "\<forall>v \<in> set vs. trustOf (entry_user v) = None"
  then have "filter (resolvable trustOf) vs = []"
    by (auto simp: filter_empty_conv resolvable_def)
  then show ?thesis by (simp add: double_totalWeight_def double_sum_def)
qed

lemma fold_accumulate_inv:
  assumes nonneg: "\<forall>i ts. trustOf i = Some ts \<longrightarrow> 0 \<le> ts"
    and "0 \<le> wc" and "wc \<le> tw" and "double_round tw = tw"
    and "fold (accumulate trustOf) vs (wc, wd, tw) = (wc', wd', tw')"
  shows "0 \<le> wc' \<and> wc' \<le> tw' \<and> double_round tw' = tw'"
  using assms(2-)
proof (induction vs arbitrary: wc wd tw)
  case Nil
  then show ?case by simp
next
  case (Cons v vs)
  show ?case
  proof (cases "resolvable trustOf v")
    case False
    then show ?thesis
      using Cons by (simp add: accumulate_unresolvable)
  next
    case True
    define w where "w = double_weight trustOf v"
    have w: "0 \<le> w"
      using nonneg unfolding w_def double_weight_def voterWeight_def
      by (auto split: option.splits intro!: double_round_nonneg)
    define wc1 where "wc1 = (if vote v = Confirm then fadd wc w else wc)"
    define wd1 where "wd1 = (if vote v = Deny then fadd wd w else wd)"
    define tw1 where "tw1 = fadd tw w"
    have step: "accumulate trustOf v (wc, wd, tw) = (wc1, wd1, tw1)"
      using True by (simp add: accumulate_resolvable wc1_def wd1_def tw1_def w_def)
    have tw0: "0 \<le> tw" using Cons.prems by simp
    have a: "0 \<le> wc1"
      using Cons.prems w by (simp add: wc1_def fadd_def double_round_nonneg)
    have "tw \<le> tw1"
      using double_round_mono [of tw "tw + w"] tw0 w Cons.prems(3) by (simp add: tw1_def fadd_def)
    moreover have "fadd wc w \<le> tw1"
      using double_round_mono [of "wc + w" "tw + w"] Cons.prems w
      by (simp add: tw1_def fadd_def)
    ultimately have b: "wc1 \<le> tw1"
      using Cons.prems(2) by (simp add: wc1_def)
    have c: "double_round tw1 = tw1"
      using tw0 w by (simp add: tw1_def fadd_def double_round_idem)
    from Cons.prems(4) have "fold (accumulate trustOf) vs (wc1, wd1, tw1) = (wc', wd', tw')"
      by (simp add: step)
    from Cons.IH [OF a b c this] show ?thesis .
  qed
qed

lemma double_weights_ordered:
  assumes "\<forall>i ts. trustOf i = Some ts \<longrightarrow> 0 \<le> ts"
  shows "0 \<le> double_weightedConfirm trustOf vs"
    and "double_weightedConfirm trustOf vs \<le> double_totalWeight trustOf vs"
proof -
  obtain wd' where f: "fold (accumulate trustOf) vs (0, 0, 0) =
     (double_weightedConfirm trustOf vs, wd', double_totalWeight trustOf vs)"
    using fold_accumulate_start by blast
  have "double_round 0 = 0" by (simp add: double_round_def)
  from fold_accumulate_inv [OF assms _ _ this f]
  show "0 \<le> double_weightedConfirm trustOf vs"
    and "double_weightedConfirm trustOf vs \<le> double_totalWeight trustOf vs"
    by simp_all
qed

subsection \<open>The three paths of calculateTrustScore\<close>

lemma calculateTrustScore_unverified:
  "verification_verificationCount r = 0 \<Longrightarrow>
   calculateTrustScore trustOf r = Inr (r\<lparr>verification_trustScore := 30\<rparr>)"
  by (simp add: calculateTrustScore_def)

lemma calculateTrustScore_weighted_path:
  assumes "verification_verificationCount r \<noteq> 0"
    and "0 < double_totalWeight trustOf (verification_verifiedBy r)"
  shows "calculateTrustScore trustOf r =
     Inr (r\<lparr>verification_trustScore :=
              js_round (fmul (double_round
                 (double_weightedConfirm trustOf (verification_verifiedBy r)
                    / double_totalWeight trustOf (verification_verifiedBy r))) 100),
            verification_status :=
              statusOf (js_round (fmul (double_round
                 (double_weightedConfirm trustOf (verification_verifiedBy r)
                    / double_totalWeight trustOf (verification_verifiedBy r))) 100))\<rparr>)"
proof -
  obtain wd' where "fold (accumulate trustOf) (verification_verifiedBy r) (0, 0, 0) =
     (double_weightedConfirm trustOf (verification_verifiedBy r), wd',
      double_totalWeight trustOf (verification_verifiedBy r))"
    using fold_accumulate_start by blast
  then show ?thesis
    using assms by (simp add: calculateTrustScore_def js_div_def Let_def)
qed

lemma calculateTrustScore_fallback_path:
  assumes "verification_verificationCount r \<noteq> 0"
    and "\<not> 0 < double_totalWeight trustOf (verification_verifiedBy r)"
  shows "calculateTrustScore trustOf r =
     Inr (r\<lparr>verification_trustScore :=
              js_round (fmul (double_round
                 (real (length (filter (\<lambda>v. vote v = Confirm) (verification_verifiedBy r)))
                    / real_of_int (verification_verificationCount r))) 100),
            verification_status :=
              statusOf (js_round (fmul (double_round
                 (real (length (filter (\<lambda>v. vote v = Confirm) (verification_verifiedBy r)))
                    / real_of_int (verification_verificationCount r))) 100))\<rparr>)"
proof -
  obtain wd' where "fold (accumulate trustOf) (verification_verifiedBy r) (0, 0, 0) =
     (double_weightedConfirm trustOf (verification_verifiedBy r), wd',
      double_totalWeight trustOf (verification_verifiedBy r))"
    using fold_accumulate_start by blast
  then show ?thesis
    using assms by (simp add: calculateTrustScore_def js_div_def Let_def)
qed

lemma calculateTrustScore_total: "\<exists>r'. calculateTrustScore trustOf r = Inr r'"
proof (cases "verification_verificationCount r = 0")
  case True
  then show ?thesis by (simp add: calculateTrustScore_unverified)
next
  case False
  then show ?thesis
    using calculateTrustScore_weighted_path [OF False, of trustOf]
      calculateTrustScore_fallback_path [OF False, of trustOf]
    by (cases "0 < double_totalWeight trustOf (verification_verifiedBy r)") simp_all
qed

lemma js_round_bounds:
  assumes "0 \<le> x" and "x \<le> 100"
  shows "0 \<le> js_round x" and "js_round x \<le> 100"
proof -
  show "0 \<le> js_round x"
    using assms unfolding js_round_def by (simp add: le_floor_iff)
  have "x + 1 / 2 < 101" using assms by simp
  then have "\<lfloor>x + 1 / 2\<rfloor> < 101" by (simp add: floor_less_iff)
  then show "js_round x \<le> 100" unfolding js_round_def by simp
qed

lemma percent_bounds:
  assumes "0 \<le> q" and "q \<le> 1"
  shows "0 \<le> js_round (fmul (double_round q) 100)"
    and "js_round (fmul (double_round q) 100) \<le> 100"
proof -
  have q0: "0 \<le> double_round q" using assms(1) by (rule double_round_nonneg)
  have "double_round q \<le> double_round 1" using assms by (intro double_round_mono)
  then have q1: "double_round q \<le> 1" by (simp add: double_round_one)
  have x0: "0 \<le> fmul (double_round q) 100"
    using q0 by (simp add: fmul_def double_round_nonneg)
  have "double_round (double_round q * 100) \<le> double_round 100"
    using q0 q1 by (intro double_round_mono) simp_all
  then have x1: "fmul (double_round q) 100 \<le> 100"
    by (simp add: fmul_def double_round_hundred)
  show "0 \<le> js_round (fmul (double_round q) 100)"
    and "js_round (fmul (double_round q) 100) \<le> 100"
    using js_round_bounds [OF x0 x1] by simp_all
qed


subsection \<open>Invariants of reports\<close>

lemma applyVote_count:
  "verification_verificationCount r = int (length (verification_verifiedBy r)) \<Longrightarrow>
   verification_verificationCount (applyVote r u vt cmt now)
     = int (length (verification_verifiedBy (applyVote r u vt cmt now)))"
  by (cases "find (\<lambda>v. entry_user v = u) (verification_verifiedBy r)")
    (simp_all add: applyVote_def length_update_first)

lemma applyVotes_count:
  "verification_verificationCount r = int (length (verification_verifiedBy r)) \<Longrightarrow>
   verification_verificationCount (applyVotes r calls)
     = int (length (verification_verifiedBy (applyVotes r calls)))"
proof (induction calls arbitrary: r)
  case Nil
  then show ?case by (simp add: applyVotes_Nil)
next
  case (Cons c calls)
  obtain u vt cmt now where c: "c = (u, vt, cmt, now)" by (cases c) auto
  show ?case unfolding c applyVotes_Cons
    by (rule Cons.IH) (rule applyVote_count [OF Cons.prems])
qed

lemma applyVotes_new_voters:
  assumes "distinct (map fst calls)"
    and "fst ` set calls \<inter> entry_user ` set (verification_verifiedBy r) = {}"
  shows "verification_verifiedBy (applyVotes r calls) =
           verification_verifiedBy r
             @ map (\<lambda>(u, vt, cmt, now).
                      \<lparr>entry_user = u, vote = vt, comment = cmt, verifiedAt = now\<rparr>) calls
         \<and> verification_verificationCount (applyVotes r calls)
             = verification_verificationCount r + int (length calls)"
  using assms
proof (induction calls arbitrary: r)
  case Nil
  then show ?case by (simp add: applyVotes_Nil)
next
  case (Cons c calls)
  obtain u vt cmt now where c: "c = (u, vt, cmt, now)" by (cases c) auto
  have new: "find (\<lambda>v. entry_user v = u) (verification_verifiedBy r) = None"
    using Cons.prems(2) by (auto simp: c find_None_iff_users)
  have vs: "verification_verifiedBy (applyVote r u vt cmt now) =
      verification_verifiedBy r @ [\<lparr>entry_user = u, vote = vt, comment = cmt, verifiedAt = now\<rparr>]"
    and n: "verification_verificationCount (applyVote r u vt cmt now)
      = verification_verificationCount r + 1"
    using applyVote_absent [OF new] by simp_all
  have d: "distinct (map fst calls)" using Cons.prems(1) by simp
  have disj: "fst ` set calls
      \<inter> entry_user ` set (verification_verifiedBy (applyVote r u vt cmt now)) = {}"
    using Cons.prems by (auto simp: vs c)
  show ?case
    unfolding c applyVotes_Cons
    using Cons.IH [OF d disj] by (simp add: vs n)
qed

subsection \<open>Bound and repetition\<close>

lemma calculateTrustScore_bounded:
  assumes res: "calculateTrustScore trustOf r = Inr r'"
    and cnt: "verification_verificationCount r = int (length (verification_verifiedBy r))"
    and nonneg: "\<forall>i ts. trustOf i = Some ts \<longrightarrow> 0 \<le> ts"
  shows "0 \<le> verification_trustScore r' \<and> verification_trustScore r' \<le> 100"
proof (cases "verification_verificationCount r = 0")
  case True
  then show ?thesis using res by (auto simp: calculateTrustScore_unverified)
next
  case False
  let ?vs = "verification_verifiedBy r"
  let ?wc = "double_weightedConfirm trustOf ?vs"
  let ?tw = "double_totalWeight trustOf ?vs"
  show ?thesis
  proof (cases "0 < ?tw")
    case True
    have "0 \<le> ?wc" "?wc \<le> ?tw"
      using double_weights_ordered [OF nonneg] by blast+
    then have q: "0 \<le> ?wc / ?tw" "?wc / ?tw \<le> 1"
      using True by (simp_all add: divide_le_eq)
    show ?thesis
      using res calculateTrustScore_weighted_path [OF False True] percent_bounds [OF q]
      by auto
  next
    case tw: False
    let ?c = "length (filter (\<lambda>v. vote v = Confirm) ?vs)"
    have "?c \<le> length ?vs" by simp
    moreover have "0 < length ?vs" using False cnt by simp
    ultimately have q: "0 \<le> real ?c / real_of_int (verification_verificationCount r)"
      "real ?c / real_of_int (verification_verificationCount r) \<le> 1"
      using cnt by (simp_all add: divide_le_eq)
    show ?thesis
      using res calculateTrustScore_fallback_path [OF False tw] percent_bounds [OF q]
      by auto
  qed
qed

lemma calculateTrustScore_again:
  assumes "calculateTrustScore trustOf r = Inr r'"
  shows "calculateTrustScore trustOf r' = Inr r'"
proof (cases "verification_verificationCount r = 0")
  case True
  then have r': "r' = r\<lparr>verification_trustScore := 30\<rparr>"
    using assms by (simp add: calculateTrustScore_unverified)
  then have "verification_verificationCount r' = 0" using True by simp
  then show ?thesis using r' by (simp add: calculateTrustScore_unverified)
next
  case False
  show ?thesis
  proof (cases "0 < double_totalWeight trustOf (verification_verifiedBy r)")
    case True
    define s where "s = js_round (fmul (double_round
                 (double_weightedConfirm trustOf (verification_verifiedBy r)
                    / double_totalWeight trustOf (verification_verifiedBy r))) 100)"
    from assms calculateTrustScore_weighted_path [OF False True]
    have r': "r' = r\<lparr>verification_trustScore := s, verification_status := statusOf s\<rparr>"
      by (simp add: s_def)
    then have same: "verification_verificationCount r' \<noteq> 0"
      "verification_verifiedBy r' = verification_verifiedBy r"
      using False by simp_all
    then have "0 < double_totalWeight trustOf (verification_verifiedBy r')"
      using True by simp
    from calculateTrustScore_weighted_path [OF same(1) this]
    show ?thesis unfolding same(2) s_def [symmetric] by (simp add: r')
  next
    case tw: False
    define s where "s = js_round (fmul (double_round
                 (real (length (filter (\<lambda>v. vote v = Confirm) (verification_verifiedBy r)))
                    / real_of_int (verification_verificationCount r))) 100)"
    from assms calculateTrustScore_fallback_path [OF False tw]
    have r': "r' = r\<lparr>verification_trustScore := s, verification_status := statusOf s\<rparr>"
      by (simp add: s_def)
    then have same: "verification_verificationCount r' \<noteq> 0"
      "verification_verifiedBy r' = verification_verifiedBy r"
      "verification_verificationCount r' = verification_verificationCount r"
      using False by simp_all
    then have "\<not> 0 < double_totalWeight trustOf (verification_verifiedBy r')"
      using tw by simp
    from calculateTrustScore_fallback_path [OF same(1) this]
    show ?thesis unfolding same(2) same(3) s_def [symmetric] by (simp add: r')
  qed
qed

subsection \<open>The scenarios\<close>

lemma scenario_reportAB:
  "verification_verifiedBy reportAB
      = [\<lparr>entry_user = 11, vote = Confirm, comment = None, verifiedAt = 100\<rparr>,
         \<lparr>entry_user = 12, vote = Deny, comment = Some ''no'', verifiedAt = 101\<rparr>]"
  "verification_verificationCount reportAB = 2"
  by (simp_all add: reportAB_def applyVotes_def applyVote_def report0_def submitReport_def)

lemma scenario_AB_weights:
  "double_weightedConfirm trustAB (verification_verifiedBy reportAB)
     = 3602879701896397 / 4503599627370496"
  "double_totalWeight trustAB (verification_verifiedBy reportAB)
     = 1351079888211149 / 1125899906842624"
  by (simp_all add: scenario_reportAB double_weightedConfirm_def double_totalWeight_def
      double_sum_def resolvable_def double_weight_def trustAB_def voterWeight_def fadd_def
      scenario_doubles)

lemma scenario_AB:
  "calculateTrustScore trustAB reportAB
     = Inr (reportAB\<lparr>verification_trustScore := 67, verification_status := Pending\<rparr>)"
proof -
  have "verification_verificationCount reportAB \<noteq> 0"
    and "0 < double_totalWeight trustAB (verification_verifiedBy reportAB)"
    by (simp_all add: scenario_reportAB(2) scenario_AB_weights)
  from calculateTrustScore_weighted_path [OF this]
  show ?thesis
    by (simp add: scenario_AB_weights fmul_def scenario_doubles js_round_def statusOf_def)
qed

lemma scenario_report60:
  "verification_verifiedBy report60
      = [\<lparr>entry_user = 21, vote = Confirm, comment = None, verifiedAt = 100\<rparr>,
         \<lparr>entry_user = 22, vote = Deny, comment = None, verifiedAt = 101\<rparr>]"
  "verification_verificationCount report60 = 2"
  by (simp_all add: report60_def applyVotes_def applyVote_def report0_def submitReport_def)

lemma scenario_voters60:
  "populate voters60 21 = Some 60" "populate voters60 22 = Some 100"
  by (simp_all add: populate_def voters60_def mkUser_def updateTrustScore_def Let_def)

lemma scenario_60_weights:
  "double_weightedConfirm (populate voters60) (verification_verifiedBy report60)
     = 5404319552844595 / 9007199254740992"
  "double_totalWeight (populate voters60) (verification_verifiedBy report60)
     = 3602879701896397 / 2251799813685248"
  by (simp_all add: scenario_report60 double_weightedConfirm_def double_totalWeight_def
      double_sum_def resolvable_def double_weight_def scenario_voters60 voterWeight_def fadd_def
      scenario_doubles)

lemma scenario_60:
  "calculateTrustScore (populate voters60) report60
     = Inr (report60\<lparr>verification_trustScore := 37, verification_status := Pending\<rparr>)"
proof -
  have "verification_verificationCount report60 \<noteq> 0"
    and "0 < double_totalWeight (populate voters60) (verification_verifiedBy report60)"
    by (simp_all add: scenario_report60(2) scenario_60_weights)
  from calculateTrustScore_weighted_path [OF this]
  show ?thesis
    by (simp add: scenario_60_weights fmul_def scenario_doubles js_round_def statusOf_def)
qed

lemma scenario_60_exact:
  "spec_weightedConfirm (populate voters60) (verification_verifiedBy report60) = 3 / 5"
  "spec_totalWeight (populate voters60) (verification_verifiedBy report60) = 8 / 5"
  by (simp_all add: scenario_report60 spec_weightedConfirm_def spec_totalWeight_def
      spec_weight_def scenario_voters60)

lemma scenario_report40:
  "verification_verifiedBy report40 =
     map (\<lambda>(u, vt, cmt, now). \<lparr>entry_user = u, vote = vt, comment = cmt, verifiedAt = now\<rparr>)
       votes40"
  "verification_verificationCount report40 = 40"
proof -
  have d: "distinct (map fst votes40)"
    by (simp add: votes40_def comp_def distinct_map inj_on_def)
  have e: "fst ` set votes40 \<inter> entry_user ` set (verification_verifiedBy report0) = {}"
    by (simp add: report0_def submitReport_def)
  from applyVotes_new_voters [OF d e]
  show "verification_verifiedBy report40 =
     map (\<lambda>(u, vt, cmt, now). \<lparr>entry_user = u, vote = vt, comment = cmt, verifiedAt = now\<rparr>)
       votes40"
    and "verification_verificationCount report40 = 40"
    by (simp_all add: report40_def report0_def submitReport_def votes40_def)
qed

lemma filter_less_upt: "m \<le> n \<Longrightarrow> filter (\<lambda>i. i < m) [0..<n] = [0..<m]"
proof (induction n)
  case 0
  then show ?case by simp
next
  case (Suc n)
  show ?case
  proof (cases "m = Suc n")
    case True
    then show ?thesis by (simp add: filter_id_conv)
  next
    case False
    then have "m \<le> n" using Suc.prems by simp
    then show ?thesis using Suc.IH by simp
  qed
qed

lemma scenario_40_confirms:
  "length (filter (\<lambda>v. vote v = Confirm) (verification_verifiedBy report40)) = 23"
proof -
  have "filter (\<lambda>v. vote v = Confirm) (verification_verifiedBy report40)
      = map (\<lambda>i. \<lparr>entry_user = 100 + i, vote = Confirm, comment = None, verifiedAt = i\<rparr>)
          (filter (\<lambda>i. i < 23) [0..<40])"
    by (simp add: scenario_report40 votes40_def filter_map comp_def cong: map_cong)
  moreover have "filter (\<lambda>i. i < 23) [0..<40] = [0..<23]"
    by (simp add: filter_less_upt)
  ultimately show ?thesis by simp
qed

lemma scenario_40:
  "calculateTrustScore Map.empty report40
     = Inr (report40\<lparr>verification_trustScore := 57, verification_status := Pending\<rparr>)"
proof -
  have "verification_verificationCount report40 \<noteq> 0"
    and "\<not> 0 < double_totalWeight Map.empty (verification_verifiedBy report40)"
    by (simp_all add: scenario_report40(2) double_totalWeight_unresolved)
  from calculateTrustScore_fallback_path [OF this]
  show ?thesis
    by (simp add: scenario_40_confirms scenario_report40(2) fmul_def scenario_doubles
        js_round_def statusOf_def)
qed


subsection \<open>The weighted score\<close>

text \<open>
  C3 (as stated, refuted). Voters with trust scores 60 (confirm) and 100 (deny) have the
  exact weights 3/5 and 1, and \<open>round (100 * weightedConfirm / totalWeight)\<close> is
  \<open>round 37.5 = 38\<close>. The code stores 37: in double arithmetic \<open>0.6 / 1.6\<close> is
  \<open>0.37499999999999994\<close> and its product with 100 is \<open>37.49999999999999\<close>.
\<close>

theorem calculateTrustScore_exact_formula_counterexample:
  "verification_verificationCount report60 = 2
   \<and> populate voters60 21 = Some 60 \<and> populate voters60 22 = Some 100
   \<and> spec_weightedConfirm (populate voters60) (verification_verifiedBy report60) = 3 / 5
   \<and> spec_totalWeight (populate voters60) (verification_verifiedBy report60) = 8 / 5
   \<and> js_round (100 * spec_weightedConfirm (populate voters60) (verification_verifiedBy report60)
                 / spec_totalWeight (populate voters60) (verification_verifiedBy report60)) = 38
   \<and> calculateTrustScore (populate voters60) report60
       = Inr (report60\<lparr>verification_trustScore := 37, verification_status := Pending\<rparr>)"
  by (simp add: scenario_report60(2) scenario_voters60 scenario_60_exact scenario_60
      js_round_def)

text \<open>
  C3 (amended). When \<open>verificationCount\<close> is not 0 and the total weight is positive, the
  loop of \<open>calculateTrustScore\<close> ends with \<open>weightedConfirm\<close> the double sum of the weights
  of the resolvable confirm entries and \<open>totalWeight\<close> the double sum of the weights of
  all resolvable entries, a weight being the double nearest to trustScore/100; an
  uncertain vote adds its weight to \<open>totalWeight\<close> only; the score is \<open>Math.round\<close> of the
  double \<open>(weightedConfirm / totalWeight) * 100\<close>, the quotient and the product each
  rounded to a double, and the status follows from the score. Voters A (80, confirm) and
  B (40, deny) give 67 and status pending.
\<close>

theorem calculateTrustScore_weighted:
  assumes "verification_verificationCount r \<noteq> 0"
    and "0 < double_totalWeight trustOf (verification_verifiedBy r)"
  shows "(\<exists>weightedDeny. fold (accumulate trustOf) (verification_verifiedBy r) (0, 0, 0) =
            (double_weightedConfirm trustOf (verification_verifiedBy r), weightedDeny,
             double_totalWeight trustOf (verification_verifiedBy r)))
       \<and> calculateTrustScore trustOf r =
           Inr (r\<lparr>verification_trustScore :=
                    js_round (fmul (double_round
                       (double_weightedConfirm trustOf (verification_verifiedBy r)
                          / double_totalWeight trustOf (verification_verifiedBy r))) 100),
                  verification_status :=
                    statusOf (js_round (fmul (double_round
                       (double_weightedConfirm trustOf (verification_verifiedBy r)
                          / double_totalWeight trustOf (verification_verifiedBy r))) 100))\<rparr>)
       \<and> (vote v = Uncertain \<and> trustOf (entry_user v) = Some ts \<and> ts \<noteq> 0 \<longrightarrow>
            accumulate trustOf v (wc, wd, tw) = (wc, wd, fadd tw (voterWeight ts)))
       \<and> calculateTrustScore trustAB reportAB
           = Inr (reportAB\<lparr>verification_trustScore := 67, verification_status := Pending\<rparr>)"
proof -
  have loop: "\<exists>weightedDeny. fold (accumulate trustOf) (verification_verifiedBy r) (0, 0, 0) =
            (double_weightedConfirm trustOf (verification_verifiedBy r), weightedDeny,
             double_totalWeight trustOf (verification_verifiedBy r))"
    by (rule fold_accumulate_start)
  have uncertain: "vote v = Uncertain \<and> trustOf (entry_user v) = Some ts \<and> ts \<noteq> 0 \<longrightarrow>
            accumulate trustOf v (wc, wd, tw) = (wc, wd, fadd tw (voterWeight ts))"
    by (simp add: accumulate_def Let_def)
  from loop calculateTrustScore_weighted_path [OF assms] uncertain scenario_AB
  show ?thesis by blast
qed

theorem calculateTrustScore_weighted_witness:
  "verification_verificationCount reportAB \<noteq> 0
   \<and> trustAB 11 = Some 80 \<and> trustAB 12 = Some 40
   \<and> double_weightedConfirm trustAB (verification_verifiedBy reportAB)
       = 3602879701896397 / 4503599627370496
   \<and> double_totalWeight trustAB (verification_verifiedBy reportAB)
       = 1351079888211149 / 1125899906842624
   \<and> 0 < double_totalWeight trustAB (verification_verifiedBy reportAB)
   \<and> js_round (fmul (double_round
         (double_weightedConfirm trustAB (verification_verifiedBy reportAB)
            / double_totalWeight trustAB (verification_verifiedBy reportAB))) 100) = 67
   \<and> statusOf 67 = Pending
   \<and> calculateTrustScore trustAB reportAB
       = Inr (reportAB\<lparr>verification_trustScore := 67, verification_status := Pending\<rparr>)"
proof -
  have n: "verification_verificationCount reportAB \<noteq> 0"
    by (simp add: scenario_reportAB(2))
  have pos: "0 < double_totalWeight trustAB (verification_verifiedBy reportAB)"
    by (simp add: scenario_AB_weights)
  have rd: "js_round (fmul (double_round
         (double_weightedConfirm trustAB (verification_verifiedBy reportAB)
            / double_totalWeight trustAB (verification_verifiedBy reportAB))) 100) = 67"
    by (simp add: scenario_AB_weights fmul_def scenario_doubles js_round_def)
  have st: "statusOf 67 = Pending"
    by (simp add: statusOf_def)
  have t: "trustAB 11 = Some 80 \<and> trustAB 12 = Some 40"
    by (simp add: trustAB_def)
  have "calculateTrustScore trustAB reportAB
       = Inr (reportAB\<lparr>verification_trustScore := 67, verification_status := Pending\<rparr>)"
    using calculateTrustScore_weighted [OF n pos, THEN conjunct2, THEN conjunct1]
    by (simp only: rd st)
  with n pos rd st t scenario_AB_weights show ?thesis by blast
qed

subsection \<open>Totality and the unweighted fallback\<close>

text \<open>
  C5 (as stated, refuted). Forty voters whose accounts are gone, 23 of them confirming:
  \<open>round (100 * 23 / 40)\<close> is \<open>round 57.5 = 58\<close>, and the code stores 57, because the
  double \<open>(23 / 40) * 100\<close> is \<open>57.49999999999999\<close>.
\<close>

theorem calculateTrustScore_fallback_counterexample:
  "verification_verificationCount report40 = 40
   \<and> length (filter (\<lambda>v. vote v = Confirm) (verification_verifiedBy report40)) = 23
   \<and> double_totalWeight Map.empty (verification_verifiedBy report40) = 0
   \<and> js_round (100 * real (length (filter (\<lambda>v. vote v = Confirm)
                                      (verification_verifiedBy report40)))
                 / real_of_int (verification_verificationCount report40)) = 58
   \<and> calculateTrustScore Map.empty report40
       = Inr (report40\<lparr>verification_trustScore := 57, verification_status := Pending\<rparr>)"
  by (simp add: scenario_report40(2) scenario_40_confirms scenario_40
      double_totalWeight_unresolved js_round_def)

text \<open>
  C5 (amended). \<open>calculateTrustScore\<close> always returns a report: no branch divides by zero.
  An entry whose voter is missing leaves the accumulator as it is. When
  \<open>verificationCount\<close> is positive and the total weight is 0, in particular when no entry
  has a resolvable voter, the score is \<open>Math.round\<close> of the double
  \<open>(confirmVotes / verificationCount) * 100\<close>, the quotient and the product each rounded
  to a double.
\<close>

theorem calculateTrustScore_total_fallback:
  "(\<exists>r'. calculateTrustScore trustOf r = Inr r')
   \<and> (trustOf (entry_user v) = None \<longrightarrow> accumulate trustOf v acc = acc)
   \<and> ((\<forall>v \<in> set (verification_verifiedBy r). trustOf (entry_user v) = None) \<longrightarrow>
        fold (accumulate trustOf) (verification_verifiedBy r) (0, 0, 0) = (0, 0, 0)
        \<and> double_totalWeight trustOf (verification_verifiedBy r) = 0)
   \<and> (0 < verification_verificationCount r
        \<and> double_totalWeight trustOf (verification_verifiedBy r) = 0 \<longrightarrow>
        calculateTrustScore trustOf r =
          Inr (r\<lparr>verification_trustScore :=
                   js_round (fmul (double_round
                      (real (length (filter (\<lambda>v. vote v = Confirm) (verification_verifiedBy r)))
                         / real_of_int (verification_verificationCount r))) 100),
                 verification_status :=
                   statusOf (js_round (fmul (double_round
                      (real (length (filter (\<lambda>v. vote v = Confirm) (verification_verifiedBy r)))
                         / real_of_int (verification_verificationCount r))) 100))\<rparr>))"
proof -
  have total: "\<exists>r'. calculateTrustScore trustOf r = Inr r'"
    by (rule calculateTrustScore_total)
  have skip: "trustOf (entry_user v) = None \<longrightarrow> accumulate trustOf v acc = acc"
    by (simp add: accumulate_missing)
  have none: "(\<forall>v \<in> set (verification_verifiedBy r). trustOf (entry_user v) = None) \<longrightarrow>
        fold (accumulate trustOf) (verification_verifiedBy r) (0, 0, 0) = (0, 0, 0)
        \<and> double_totalWeight trustOf (verification_verifiedBy r) = 0"
    by (simp add: fold_accumulate_unresolved double_totalWeight_unresolved)
  have fallback: "0 < verification_verificationCount r
        \<and> double_totalWeight trustOf (verification_verifiedBy r) = 0 \<longrightarrow>
        calculateTrustScore trustOf r =
          Inr (r\<lparr>verification_trustScore :=
                   js_round (fmul (double_round
                      (real (length (filter (\<lambda>v. vote v = Confirm) (verification_verifiedBy r)))
                         / real_of_int (verification_verificationCount r))) 100),
                 verification_status :=
                   statusOf (js_round (fmul (double_round
                      (real (length (filter (\<lambda>v. vote v = Confirm) (verification_verifiedBy r)))
                         / real_of_int (verification_verificationCount r))) 100))\<rparr>)"
  proof
    assume a: "0 < verification_verificationCount r
        \<and> double_totalWeight trustOf (verification_verifiedBy r) = 0"
    then have "verification_verificationCount r \<noteq> 0"
      and "\<not> 0 < double_totalWeight trustOf (verification_verifiedBy r)" by simp_all
    from calculateTrustScore_fallback_path [OF this]
    show "calculateTrustScore trustOf r =
          Inr (r\<lparr>verification_trustScore :=
                   js_round (fmul (double_round
                      (real (length (filter (\<lambda>v. vote v = Confirm) (verification_verifiedBy r)))
                         / real_of_int (verification_verificationCount r))) 100),
                 verification_status :=
                   statusOf (js_round (fmul (double_round
                      (real (length (filter (\<lambda>v. vote v = Confirm) (verification_verifiedBy r)))
                         / real_of_int (verification_verificationCount r))) 100))\<rparr>)" .
  qed
  from total skip none fallback show ?thesis by blast
qed

theorem calculateTrustScore_total_fallback_witness:
  "map (\<lambda>v. (Map.empty :: objectId \<Rightarrow> int option) (entry_user v))
       (verification_verifiedBy reportAB) = [None, None]
   \<and> 0 < verification_verificationCount reportAB
   \<and> double_totalWeight Map.empty (verification_verifiedBy reportAB) = 0
   \<and> calculateTrustScore Map.empty reportAB
       = Inr (reportAB\<lparr>verification_trustScore := 50, verification_status := Pending\<rparr>)
   \<and> 0 < verification_verificationCount report40
   \<and> double_totalWeight Map.empty (verification_verifiedBy report40) = 0
   \<and> calculateTrustScore Map.empty report40
       = Inr (report40\<lparr>verification_trustScore := 57, verification_status := Pending\<rparr>)"
proof -
  have un: "\<forall>v \<in> set (verification_verifiedBy reportAB). Map.empty (entry_user v) = None"
    "\<forall>v \<in> set (verification_verifiedBy report40). Map.empty (entry_user v) = None"
    by simp_all
  have rd: "js_round (fmul (double_round (real (Suc 0) / 2)) 100) = 50" "statusOf 50 = Pending"
    "js_round (fmul (double_round (23 / 40)) 100) = 57" "statusOf 57 = Pending"
    by (simp_all add: fmul_def scenario_doubles js_round_def statusOf_def)
  have ab: "0 < verification_verificationCount reportAB
   \<and> double_totalWeight Map.empty (verification_verifiedBy reportAB) = 0
   \<and> calculateTrustScore Map.empty reportAB
       = Inr (reportAB\<lparr>verification_trustScore := 50, verification_status := Pending\<rparr>)"
    using un(1) rd
      calculateTrustScore_total_fallback [of Map.empty reportAB
        "\<lparr>entry_user = 11, vote = Confirm, comment = None, verifiedAt = 100\<rparr>" "(0, 0, 0)"]
    by (simp add: scenario_reportAB)
  have r40: "0 < verification_verificationCount report40
   \<and> double_totalWeight Map.empty (verification_verifiedBy report40) = 0
   \<and> calculateTrustScore Map.empty report40
       = Inr (report40\<lparr>verification_trustScore := 57, verification_status := Pending\<rparr>)"
    using un(2) rd
      calculateTrustScore_total_fallback [of Map.empty report40
        "\<lparr>entry_user = 11, vote = Confirm, comment = None, verifiedAt = 100\<rparr>" "(0, 0, 0)"]
    by (simp add: scenario_report40(2) scenario_40_confirms)
  from ab r40 show ?thesis by (simp add: scenario_reportAB)
qed

subsection \<open>Repetition and range\<close>

text \<open>
  C6. \<open>calculateTrustScore\<close> returns a report on which a second run, with the same entries
  and the same voter trust scores, changes nothing. When \<open>verificationCount\<close> is the number
  of entries (which submission establishes and every vote preserves) and no voter trust
  score is negative (the schema's minimum is 0), the score lies between 0 and 100; so does
  the score that the verify handler stores after any sequence of votes on a submitted
  report.
\<close>

theorem calculateTrustScore_idempotent_bounded:
  "(\<exists>r'. calculateTrustScore trustOf r = Inr r'
        \<and> calculateTrustScore trustOf r' = Inr r'
        \<and> (verification_verificationCount r = int (length (verification_verifiedBy r))
             \<and> (\<forall>i ts. trustOf i = Some ts \<longrightarrow> 0 \<le> ts)
             \<longrightarrow> 0 \<le> verification_trustScore r' \<and> verification_trustScore r' \<le> 100))
   \<and> verification_verificationCount
         (applyVotes (submitReport newId reporter ftype loc ph em imp) calls)
       = int (length (verification_verifiedBy
            (applyVotes (submitReport newId reporter ftype loc ph em imp) calls)))
   \<and> ((\<forall>i ts. trustOf i = Some ts \<longrightarrow> 0 \<le> ts) \<longrightarrow>
        (\<exists>r''. verifyReport trustOf
                 (applyVotes (submitReport newId reporter ftype loc ph em imp) calls)
                 u vt cmt now = Inr r''
              \<and> 0 \<le> verification_trustScore r'' \<and> verification_trustScore r'' \<le> 100))"
proof -
  let ?r0 = "applyVotes (submitReport newId reporter ftype loc ph em imp) calls"
  have inv0: "verification_verificationCount ?r0 = int (length (verification_verifiedBy ?r0))"
    by (rule applyVotes_count) (simp add: submitReport_def)
  have inv1: "verification_verificationCount (applyVote ?r0 u vt cmt now)
      = int (length (verification_verifiedBy (applyVote ?r0 u vt cmt now)))"
    by (rule applyVote_count [OF inv0])
  obtain r'' where r'': "calculateTrustScore trustOf (applyVote ?r0 u vt cmt now) = Inr r''"
    using calculateTrustScore_total by blast
  have path: "(\<forall>i ts. trustOf i = Some ts \<longrightarrow> 0 \<le> ts) \<longrightarrow>
        (\<exists>r''. verifyReport trustOf ?r0 u vt cmt now = Inr r''
              \<and> 0 \<le> verification_trustScore r'' \<and> verification_trustScore r'' \<le> 100)"
    using r'' calculateTrustScore_bounded [OF r'' inv1] by (auto simp: verifyReport_def)
  obtain r' where r': "calculateTrustScore trustOf r = Inr r'"
    using calculateTrustScore_total by blast
  have again: "calculateTrustScore trustOf r' = Inr r'"
    by (rule calculateTrustScore_again [OF r'])
  have bounded: "verification_verificationCount r = int (length (verification_verifiedBy r))
             \<and> (\<forall>i ts. trustOf i = Some ts \<longrightarrow> 0 \<le> ts)
             \<longrightarrow> 0 \<le> verification_trustScore r' \<and> verification_trustScore r' \<le> 100"
    using calculateTrustScore_bounded [OF r'] by blast
  from r' again bounded inv0 path show ?thesis by blast
qed

theorem calculateTrustScore_idempotent_bounded_witness:
  "verification_verificationCount reportAB = int (length (verification_verifiedBy reportAB))
   \<and> trustAB 11 = Some 80 \<and> trustAB 12 = Some 40
   \<and> (\<exists>r'. calculateTrustScore trustAB reportAB = Inr r'
          \<and> calculateTrustScore trustAB r' = Inr r'
          \<and> verification_trustScore r' = 67
          \<and> 0 \<le> verification_trustScore r' \<and> verification_trustScore r' \<le> 100)"
proof -
  have cnt: "verification_verificationCount reportAB
      = int (length (verification_verifiedBy reportAB))"
    by (simp add: scenario_reportAB)
  have nonneg: "\<forall>i ts. trustAB i = Some ts \<longrightarrow> 0 \<le> ts"
    by (simp add: trustAB_def)
  obtain r' where r': "calculateTrustScore trustAB reportAB = Inr r'"
    "calculateTrustScore trustAB r' = Inr r'"
    "0 \<le> verification_trustScore r' \<and> verification_trustScore r' \<le> 100"
    using calculateTrustScore_idempotent_bounded [of trustAB reportAB] cnt nonneg by blast
  have "verification_trustScore r' = 67"
    using r'(1) by (simp add: scenario_AB) auto
  moreover have "trustAB 11 = Some 80 \<and> trustAB 12 = Some 40"
    by (simp add: trustAB_def)
  ultimately show ?thesis using cnt r' by blast
qed

subsection \<open>The score of a new report\<close>

text \<open>
  C4 (the code differs). The submission handler stores a report with \<open>verificationCount\<close> 0
  and \<open>verification.trustScore\<close> 0, the schema default; the base score 30 is what
  \<open>calculateTrustScore\<close> would set on that report, and the handler does not call it.
\<close>

theorem submitReport_trustScore_default:
  "verification_verificationCount (submitReport newId reporter ftype loc ph em imp) = 0
   \<and> verification_verifiedBy (submitReport newId reporter ftype loc ph em imp) = []
   \<and> verification_trustScore (submitReport newId reporter ftype loc ph em imp) = 0
   \<and> calculateTrustScore trustOf (submitReport newId reporter ftype loc ph em imp)
       = Inr ((submitReport newId reporter ftype loc ph em imp)\<lparr>verification_trustScore := 30\<rparr>)"
  by (simp add: submitReport_def calculateTrustScore_def)

section \<open>Properties: alert creation and proximity matching\<close>

subsection \<open>Distance and the structure of alert creation\<close>

lemma atan2_abs_sin_cos:
  assumes "- (pi / 2) < x" and "x < pi / 2"
  shows "atan2 \<bar>sin x\<bar> (cos x) = \<bar>x\<bar>"
proof -
  have cpos: "0 < cos x" using assms by (rule cos_gt_zero_pi)
  show ?thesis
  proof (cases "0 \<le> x")
    case True
    then have "0 \<le> sin x" using assms by (intro sin_ge_zero) auto
    then have "atan2 \<bar>sin x\<bar> (cos x) = arctan (tan x)"
      using cpos by (simp add: atan2_def tan_def)
    also have "\<dots> = x" using assms by (rule arctan_tan)
    finally show ?thesis using True by simp
  next
    case False
    then have neg: "0 \<le> - x" "- x < pi / 2" "- (pi / 2) < - x" using assms by auto
    then have "0 \<le> sin (- x)" by (intro sin_ge_zero) auto
    then have "\<bar>sin x\<bar> = sin (- x)" by simp
    then have "atan2 \<bar>sin x\<bar> (cos x) = arctan (tan (- x))"
      using cpos by (simp add: atan2_def tan_def)
    also have "\<dots> = - x" using neg by (intro arctan_tan) auto
    finally show ?thesis using False by simp
  qed
qed

lemma calculateDistance_same_longitude:
  assumes "\<bar>lat2 - lat1\<bar> < 180"
  shows "calculateDistance (lon, lat1) (lon, lat2) = 6371 * \<bar>toRadians (lat2 - lat1)\<bar>"
proof -
  define x where "x = toRadians (lat2 - lat1) / 2"
  have "\<bar>lat2 - lat1\<bar> * (pi / 180) < 180 * (pi / 180)"
    using assms by (intro mult_strict_right_mono) auto
  then have "\<bar>x\<bar> < pi / 2"
    unfolding x_def toRadians_def by (simp add: abs_mult)
  then have xb: "- (pi / 2) < x" "x < pi / 2" by auto
  have cpos: "0 < cos x" using xb by (rule cos_gt_zero_pi)
  have t0: "toRadians 0 = 0" by (simp add: toRadians_def)
  have s1: "sqrt (sin x * sin x) = \<bar>sin x\<bar>" by simp
  have "1 - sin x * sin x = cos x * cos x"
    using sin_cos_squared_add [of x] by (simp add: power2_eq_square)
  then have s2: "sqrt (1 - sin x * sin x) = cos x"
    using cpos by simp
  have "calculateDistance (lon, lat1) (lon, lat2) = 6371 * (2 * atan2 \<bar>sin x\<bar> (cos x))"
    by (simp add: calculateDistance_def Let_def x_def [symmetric] t0 s1 s2)
  also have "\<dots> = 6371 * (2 * \<bar>x\<bar>)"
    by (simp add: atan2_abs_sin_cos [OF xb])
  also have "\<dots> = 6371 * \<bar>toRadians (lat2 - lat1)\<bar>"
    by (simp add: x_def)
  finally show ?thesis .
qed

lemma calculateDistance_same_point: "calculateDistance p p = 0"
proof -
  obtain lon lat where p: "p = (lon, lat)" by (cases p)
  show ?thesis unfolding p
    by (simp add: calculateDistance_same_longitude toRadians_def)
qed

lemma triple_sendAlertNotifications:
  "triple (sendAlertNotifications send now usr a) = triple a"
  by (simp add: sendAlertNotifications_def triple_def Let_def)

lemma alert_user_sendAlertNotifications:
  "alert_user (sendAlertNotifications send now usr a) = alert_user a"
  by (simp add: sendAlertNotifications_def Let_def)

lemma fold_snoc_map: "fold (\<lambda>a st. st @ [f a]) xs st = st @ map f xs"
  by (induction xs arbitrary: st) auto

lemma fold_append_concat: "fold (\<lambda>x st. st @ g x) xs st = st @ concat (map g xs)"
  by (induction xs arbitrary: st) auto

lemma createMatchAlerts_append:
  "createMatchAlerts send now users r store =
     store @ concat (map (\<lambda>usr. map (sendAlertNotifications send now usr) (matchAlerts r usr))
                       (filter isActive users))"
  by (simp add: createMatchAlerts_def fold_snoc_map fold_append_concat)

lemma createProximityAlerts_append:
  "createProximityAlerts geoNear send now users r store =
     store @ concat (map (proximityBatch send now r) (nearbyUsers geoNear users r))"
proof -
  have "(\<lambda>usr st. case proximityAlert r usr of None \<Rightarrow> st
                   | Some a \<Rightarrow> st @ [sendAlertNotifications send now usr a])
      = (\<lambda>usr st. st @ proximityBatch send now r usr)"
    by (auto simp: proximityBatch_def fun_eq_iff split: option.splits)
  then show ?thesis
    by (simp add: createProximityAlerts_def fold_append_concat)
qed

lemma matchAlerts_triples:
  "map triple (map (sendAlertNotifications send now usr) (matchAlerts r usr)) =
     map (\<lambda>ty. (uid usr, rid r, ty)) (map alertType (matchAlerts r usr))"
proof -
  have "map triple (map (sendAlertNotifications send now usr) (matchAlerts r usr))
      = map triple (matchAlerts r usr)"
    by (simp add: triple_sendAlertNotifications comp_def)
  also have "\<dots> = map (\<lambda>ty. (uid usr, rid r, ty)) (map alertType (matchAlerts r usr))"
    by (auto simp: matchAlerts_def triple_def newAlert_def split: option.splits)
  finally show ?thesis .
qed

lemma matchAlerts_types_distinct: "distinct (map alertType (matchAlerts r usr))"
  by (auto simp: matchAlerts_def newAlert_def split: option.splits)

lemma proximityBatch_triples:
  "map triple (proximityBatch send now r usr) =
     map (\<lambda>ty. (uid usr, rid r, ty)) (map alertType (proximityBatch send now r usr))"
proof (cases "proximityAlert r usr")
  case None
  then show ?thesis by (simp add: proximityBatch_def)
next
  case (Some a)
  then have "alert_user a = uid usr" "alert_fraudReport a = rid r"
    by (auto simp: proximityAlert_def newAlert_def Let_def split: if_splits)
  then have "triple a = (uid usr, rid r, alertType a)"
    by (simp add: triple_def)
  then show ?thesis
    using Some triple_sendAlertNotifications [of send now usr a]
    by (simp add: proximityBatch_def triple_def)
qed

lemma proximityBatch_types_distinct:
  "distinct (map alertType (proximityBatch send now r usr))"
  by (auto simp: proximityBatch_def split: option.splits)

lemma distinct_per_user_triples:
  assumes "distinct (map uid us)"
    and "\<And>usr. distinct (tys usr)"
  shows "distinct (concat (map (\<lambda>usr. map (\<lambda>ty. (uid usr, k, ty)) (tys usr)) us))"
  using assms(1)
proof (induction us)
  case Nil
  then show ?case by simp
next
  case (Cons usr us)
  have inj: "inj_on (\<lambda>ty. (uid usr, k, ty)) (set (tys usr))"
    by (rule inj_onI) simp
  have d1: "distinct (map (\<lambda>ty. (uid usr, k, ty)) (tys usr))"
    using assms(2) [of usr] inj by (simp add: distinct_map)
  have d2: "distinct (concat (map (\<lambda>usr. map (\<lambda>ty. (uid usr, k, ty)) (tys usr)) us))"
    using Cons by simp
  have disj: "set (map (\<lambda>ty. (uid usr, k, ty)) (tys usr))
      \<inter> set (concat (map (\<lambda>usr. map (\<lambda>ty. (uid usr, k, ty)) (tys usr)) us)) = {}"
    using Cons.prems by auto
  show ?case using d1 d2 disj by simp
qed

lemma createMatchAlerts_fresh_distinct:
  assumes "distinct (map uid users)"
  shows "distinct (map triple (createMatchAlerts send now users r []))"
proof -
  have d: "distinct (map uid (filter isActive users))"
    using assms by (rule distinct_map_filter)
  have "map triple (createMatchAlerts send now users r []) =
      concat (map (\<lambda>usr. map triple (map (sendAlertNotifications send now usr)
                                           (matchAlerts r usr)))
               (filter isActive users))"
    by (simp add: createMatchAlerts_append map_concat comp_def)
  also have "\<dots> =
      concat (map (\<lambda>usr. map (\<lambda>ty. (uid usr, rid r, ty)) (map alertType (matchAlerts r usr)))
               (filter isActive users))"
    by (simp only: matchAlerts_triples)
  finally have "map triple (createMatchAlerts send now users r []) =
      concat (map (\<lambda>usr. map (\<lambda>ty. (uid usr, rid r, ty)) (map alertType (matchAlerts r usr)))
               (filter isActive users))" .
  then show ?thesis
    using distinct_per_user_triples [OF d, of "\<lambda>usr. map alertType (matchAlerts r usr)" "rid r"]
      matchAlerts_types_distinct by simp
qed

lemma createProximityAlerts_fresh_distinct:
  assumes "distinct (map uid users)"
  shows "distinct (map triple (createProximityAlerts geoNear send now users r []))"
proof -
  have d: "distinct (map uid (nearbyUsers geoNear users r))"
    unfolding nearbyUsers_def using assms by (rule distinct_map_filter)
  have "map triple (createProximityAlerts geoNear send now users r []) =
      concat (map (\<lambda>usr. map triple (proximityBatch send now r usr))
               (nearbyUsers geoNear users r))"
    by (simp add: createProximityAlerts_append map_concat comp_def)
  also have "\<dots> =
      concat (map (\<lambda>usr. map (\<lambda>ty. (uid usr, rid r, ty))
                         (map alertType (proximityBatch send now r usr)))
               (nearbyUsers geoNear users r))"
    by (simp only: proximityBatch_triples)
  finally have "map triple (createProximityAlerts geoNear send now users r []) =
      concat (map (\<lambda>usr. map (\<lambda>ty. (uid usr, rid r, ty))
                         (map alertType (proximityBatch send now r usr)))
               (nearbyUsers geoNear users r))" .
  then show ?thesis
    using distinct_per_user_triples [OF d,
        of "\<lambda>usr. map alertType (proximityBatch send now r usr)" "rid r"]
      proximityBatch_types_distinct by simp
qed


lemma proximityAlert_Some_iff:
  "proximityAlert r u \<noteq> None \<longleftrightarrow>
     calculateDistance (coordinates u) (location_coordinates r) \<le> alertRadius u
     \<and> (fraudTypes u = [] \<or> fraudType r \<in> set (fraudTypes u))
     \<and> uid u \<noteq> reportedBy r"
  by (auto simp: proximityAlert_def Let_def)

lemma nearbyUsers_iff:
  "u \<in> set (nearbyUsers geoNear users r) \<longleftrightarrow>
     u \<in> set users \<and> geoNear (location_coordinates r) (coordinates u) \<le> 10000
     \<and> isActive u \<and> notifications_push u"
  by (auto simp: nearbyUsers_def queryRadius_def)

lemma proximityBatch_recipients:
  "map alert_user (proximityBatch send now r u) = (if proximityAlert r u \<noteq> None then [uid u] else [])"
proof (cases "proximityAlert r u")
  case None
  then show ?thesis by (simp add: proximityBatch_def)
next
  case (Some a)
  then have "alert_user a = uid u"
    by (auto simp: proximityAlert_def newAlert_def Let_def split: if_splits)
  then show ?thesis
    using Some by (simp add: proximityBatch_def alert_user_sendAlertNotifications)
qed

lemma concat_map_if: "concat (map (\<lambda>x. if P x then [f x] else []) xs) = map f (filter P xs)"
  by (induction xs) auto

lemma createProximityAlerts_recipients:
  "map alert_user (createProximityAlerts geoNear send now users r []) =
     map uid (filter (\<lambda>u. isActive u \<and> notifications_push u
                          \<and> geoNear (location_coordinates r) (coordinates u) \<le> 10000
                          \<and> calculateDistance (coordinates u) (location_coordinates r) \<le> alertRadius u
                          \<and> (fraudTypes u = [] \<or> fraudType r \<in> set (fraudTypes u))
                          \<and> uid u \<noteq> reportedBy r) users)"
proof -
  have "map alert_user (createProximityAlerts geoNear send now users r []) =
      concat (map (\<lambda>u. map alert_user (proximityBatch send now r u)) (nearbyUsers geoNear users r))"
    by (simp add: createProximityAlerts_append map_concat comp_def)
  also have "\<dots> = concat (map (\<lambda>u. if proximityAlert r u \<noteq> None then [uid u] else [])
                          (nearbyUsers geoNear users r))"
    by (simp only: proximityBatch_recipients)
  also have "\<dots> = map uid (filter (\<lambda>u. proximityAlert r u \<noteq> None) (nearbyUsers geoNear users r))"
    by (rule concat_map_if)
  also have "filter (\<lambda>u. proximityAlert r u \<noteq> None) (nearbyUsers geoNear users r) =
      filter (\<lambda>u. isActive u \<and> notifications_push u
                          \<and> geoNear (location_coordinates r) (coordinates u) \<le> 10000
                          \<and> calculateDistance (coordinates u) (location_coordinates r) \<le> alertRadius u
                          \<and> (fraudTypes u = [] \<or> fraudType r \<in> set (fraudTypes u))
                          \<and> uid u \<noteq> reportedBy r) users"
    unfolding nearbyUsers_def proximityAlert_Some_iff queryRadius_def
    by (auto intro: filter_cong)
  finally show ?thesis .
qed


lemma createMatchAlerts_triples:
  "map triple (createMatchAlerts send now users r store) =
     map triple store
       @ concat (map (\<lambda>usr. map (\<lambda>ty. (uid usr, rid r, ty)) (map alertType (matchAlerts r usr)))
                  (filter isActive users))"
proof -
  have "map triple (createMatchAlerts send now users r store) =
      map triple store
        @ concat (map (\<lambda>usr. map triple (map (sendAlertNotifications send now usr)
                                           (matchAlerts r usr)))
                   (filter isActive users))"
    by (simp add: createMatchAlerts_append map_concat comp_def)
  then show ?thesis by (simp only: matchAlerts_triples)
qed

lemma proximityBatch_triple:
  "map triple (proximityBatch send now r u) =
     (if proximityAlert r u \<noteq> None then [(uid u, rid r, Proximity)] else [])"
proof (cases "proximityAlert r u")
  case None
  then show ?thesis by (simp add: proximityBatch_def)
next
  case (Some a)
  then have "triple a = (uid u, rid r, Proximity)"
    by (auto simp: proximityAlert_def newAlert_def triple_def Let_def split: if_splits)
  then show ?thesis
    using Some by (simp add: proximityBatch_def triple_sendAlertNotifications)
qed

lemma createProximityAlerts_triples:
  "map triple (createProximityAlerts geoNear send now users r store) =
     map triple store
       @ map (\<lambda>u. (uid u, rid r, Proximity))
           (filter (\<lambda>u. isActive u \<and> notifications_push u
                          \<and> geoNear (location_coordinates r) (coordinates u) \<le> 10000
                          \<and> calculateDistance (coordinates u) (location_coordinates r) \<le> alertRadius u
                          \<and> (fraudTypes u = [] \<or> fraudType r \<in> set (fraudTypes u))
                          \<and> uid u \<noteq> reportedBy r) users)"
proof -
  have "map triple (createProximityAlerts geoNear send now users r store) =
      map triple store
        @ concat (map (\<lambda>u. map triple (proximityBatch send now r u)) (nearbyUsers geoNear users r))"
    by (simp add: createProximityAlerts_append map_concat comp_def)
  also have "concat (map (\<lambda>u. map triple (proximityBatch send now r u)) (nearbyUsers geoNear users r))
      = concat (map (\<lambda>u. if proximityAlert r u \<noteq> None then [(uid u, rid r, Proximity)] else [])
                  (nearbyUsers geoNear users r))"
    by (simp only: proximityBatch_triple)
  also have "\<dots> = map (\<lambda>u. (uid u, rid r, Proximity))
                    (filter (\<lambda>u. proximityAlert r u \<noteq> None) (nearbyUsers geoNear users r))"
    by (rule concat_map_if)
  also have "filter (\<lambda>u. proximityAlert r u \<noteq> None) (nearbyUsers geoNear users r) =
      filter (\<lambda>u. isActive u \<and> notifications_push u
                          \<and> geoNear (location_coordinates r) (coordinates u) \<le> 10000
                          \<and> calculateDistance (coordinates u) (location_coordinates r) \<le> alertRadius u
                          \<and> (fraudTypes u = [] \<or> fraudType r \<in> set (fraudTypes u))
                          \<and> uid u \<noteq> reportedBy r) users"
    unfolding nearbyUsers_def proximityAlert_Some_iff queryRadius_def
    by (auto intro: filter_cong)
  finally show ?thesis .
qed

lemma new_triples_of_report:
  "t \<in> set (map triple (createMatchAlerts send now users r [])) \<Longrightarrow> fst (snd t) = rid r"
  "t \<in> set (map triple (createProximityAlerts geoNear send now users r [])) \<Longrightarrow> fst (snd t) = rid r"
  by (auto simp: createMatchAlerts_triples createProximityAlerts_triples)

lemma distinct_store_append:
  assumes "distinct (map triple store)"
    and "\<forall>a \<in> set store. alert_fraudReport a \<noteq> k"
    and "distinct (map triple new)"
    and "\<And>t. t \<in> set (map triple new) \<Longrightarrow> fst (snd t) = k"
  shows "distinct (map triple (store @ new))"
proof -
  have "set (map triple store) \<inter> set (map triple new) = {}"
  proof (rule ccontr)
    assume "set (map triple store) \<inter> set (map triple new) \<noteq> {}"
    then obtain t where "t \<in> set (map triple store)" and "t \<in> set (map triple new)"
      by blast
    then obtain a where a: "a \<in> set store" and t: "triple a \<in> set (map triple new)"
      by auto
    from assms(4) [OF t] have "alert_fraudReport a = k" by (simp add: triple_def)
    with assms(2) a show False by blast
  qed
  then show ?thesis using assms(1,3) by simp
qed

lemma scenario_users:
  "uid alice = 1" "uid bob = 2" "uid carol = 3" "uid dave = 4"
  "isActive alice" "isActive bob" "isActive carol" "isActive dave"
  "notifications_push alice" "notifications_push bob" "notifications_push carol"
  "notifications_push dave"
  "fraudTypes alice = []" "fraudTypes bob = []" "fraudTypes carol = []" "fraudTypes dave = []"
  "coordinates alice = (0, 0)" "coordinates bob = (0, 1 / 5)" "coordinates carol = (0, 0)"
  "coordinates dave = (0, 0)"
  "alertRadius alice = 10" "alertRadius bob = 50" "alertRadius carol = 10" "alertRadius dave = 10"
  "phone alice = Some ''+15551234567''" "phone bob = None" "phone carol = None"
  "phone dave = Some ''+15550000004''"
  "email alice = ''alice@example.org''" "email bob = ''bob@example.org''"
  "email carol = ''carol@example.org''" "email dave = ''dave@example.org''"
  by (simp_all add: alice_def bob_def carol_def dave_def mkUser_def updateTrustScore_def Let_def)

lemma scenario_reports:
  "rid report0 = 7" "reportedBy report0 = 3" "fraudType report0 = ''phishing''"
  "location_coordinates report0 = (0, 0)"
  "evidence_phoneNumber report0 = Some ''+15551234567''"
  "evidence_email report0 = Some ''bob@example.org''"
  "rid report1 = 8" "reportedBy report1 = 3" "fraudType report1 = ''lottery''"
  "location_coordinates report1 = (0, 0)"
  "evidence_phoneNumber report1 = None" "evidence_email report1 = None"
  by (simp_all add: report0_def report1_def submitReport_def)

lemma scenario_matches:
  "map alertType (matchAlerts report0 alice) = [Phone_match]"
  "map alertType (matchAlerts report0 bob) = [Email_match]"
  "map alertType (matchAlerts report0 carol) = []"
  "map alertType (matchAlerts report0 dave) = []"
  by (simp_all add: matchAlerts_def scenario_reports scenario_users newAlert_def)

lemma scenario_distances:
  "calculateDistance (0, 0) (0, 0) = 0"
  "calculateDistance (0, 0) (0, 1 / 5) = 6371 * pi / 900"
  "calculateDistance (0, 1 / 5) (0, 0) = 6371 * pi / 900"
  by (simp_all add: calculateDistance_same_longitude toRadians_def)

lemma bob_distance_bounds:
  "10 < 6371 * pi / 900" "6371 * pi / 900 \<le> 50"
  using pi_ge_two pi_less_4 by simp_all

lemma scenario_match_triples:
  "map triple (createMatchAlerts send now [alice, bob, carol, dave] report0 store)
     = map triple store @ [(1, 7, Phone_match), (2, 7, Email_match)]"
  "map triple (createMatchAlerts send now [alice] report0 store)
     = map triple store @ [(1, 7, Phone_match)]"
  by (simp_all add: createMatchAlerts_triples scenario_users scenario_matches scenario_reports
      del: map_map)

lemma scenario_proximity_triples:
  "map triple (createProximityAlerts geoMetres send now [alice, bob, carol, dave] report0 store)
     = map triple store @ [(1, 7, Proximity), (4, 7, Proximity)]"
  "map triple (createProximityAlerts geoMetres send now [alice, bob, carol, dave] report1 store)
     = map triple store @ [(1, 8, Proximity), (4, 8, Proximity)]"
  "map triple (createProximityAlerts geoMetres send now [alice] report0 store)
     = map triple store @ [(1, 7, Proximity)]"
  using bob_distance_bounds
  by (simp_all add: createProximityAlerts_triples geoMetres_def scenario_users scenario_reports
      scenario_distances)

subsection \<open>Uniqueness of alerts\<close>

text \<open>
  C1 (as stated, refuted). Alert creation for a triple that already has an alert is not a
  no-op: a second run of \<open>createMatchAlerts\<close>, or of \<open>createProximityAlerts\<close>, for the same
  report stores a second alert with the same recipient, report and alert type.
\<close>

theorem createMatchAlerts_duplicate_counterexample:
  "map triple (createMatchAlerts always 1 [alice] report0 []) = [(1, 7, Phone_match)]
   \<and> map triple (createMatchAlerts always 2 [alice] report0
                    (createMatchAlerts always 1 [alice] report0 []))
       = [(1, 7, Phone_match), (1, 7, Phone_match)]
   \<and> \<not> distinct (map triple (createMatchAlerts always 2 [alice] report0
                    (createMatchAlerts always 1 [alice] report0 [])))
   \<and> map triple (createProximityAlerts geoMetres always 2 [alice] report0
                    (createProximityAlerts geoMetres always 1 [alice] report0 []))
       = [(1, 7, Proximity), (1, 7, Proximity)]"
  by (simp add: scenario_match_triples scenario_proximity_triples)

text \<open>
  C1 (amended). Alert creation, by proximity or by identifier match, for a report of which
  no alert is stored yet and over users with pairwise distinct ids keeps the alerts
  unique: when no two stored alerts share \<open>(recipient, report, alertType)\<close> before the run,
  none do after it. The creation code never reads the stored alerts: every run leaves
  them as they are and appends what it creates.
\<close>

theorem createAlerts_keep_unique:
  "createMatchAlerts send now users r store = store @ createMatchAlerts send now users r []
   \<and> createProximityAlerts geoNear send now users r store
       = store @ createProximityAlerts geoNear send now users r []
   \<and> (distinct (map uid users) \<and> distinct (map triple store)
        \<and> (\<forall>a \<in> set store. alert_fraudReport a \<noteq> rid r) \<longrightarrow>
        distinct (map triple (createMatchAlerts send now users r store))
        \<and> distinct (map triple (createProximityAlerts geoNear send now users r store)))"
proof -
  have m: "createMatchAlerts send now users r store
      = store @ createMatchAlerts send now users r []"
    by (simp add: createMatchAlerts_append)
  have p: "createProximityAlerts geoNear send now users r store
       = store @ createProximityAlerts geoNear send now users r []"
    by (simp add: createProximityAlerts_append)
  have d: "distinct (map uid users) \<and> distinct (map triple store)
        \<and> (\<forall>a \<in> set store. alert_fraudReport a \<noteq> rid r) \<longrightarrow>
        distinct (map triple (createMatchAlerts send now users r store))
        \<and> distinct (map triple (createProximityAlerts geoNear send now users r store))"
  proof
    assume a: "distinct (map uid users) \<and> distinct (map triple store)
        \<and> (\<forall>a \<in> set store. alert_fraudReport a \<noteq> rid r)"
    have "distinct (map triple (store @ createMatchAlerts send now users r []))"
      using a createMatchAlerts_fresh_distinct [of users send now r]
        new_triples_of_report(1) [of _ send now users r]
      by (intro distinct_store_append [where k = "rid r"]) blast+
    moreover have "distinct (map triple (store @ createProximityAlerts geoNear send now users r []))"
      using a createProximityAlerts_fresh_distinct [of users geoNear send now r]
        new_triples_of_report(2) [of _ geoNear send now users r]
      by (intro distinct_store_append [where k = "rid r"]) blast+
    ultimately show "distinct (map triple (createMatchAlerts send now users r store))
        \<and> distinct (map triple (createProximityAlerts geoNear send now users r store))"
      using m p by simp
  qed
  from m p d show ?thesis by blast
qed

theorem createAlerts_keep_unique_witness:
  "map uid [alice, bob, carol, dave] = [1, 2, 3, 4]
   \<and> map triple (createProximityAlerts geoMetres always 1 [alice, bob, carol, dave] report1 [])
       = [(1, 8, Proximity), (4, 8, Proximity)]
   \<and> map triple (createMatchAlerts always 2 [alice, bob, carol, dave] report0
         (createProximityAlerts geoMetres always 1 [alice, bob, carol, dave] report1 []))
       = [(1, 8, Proximity), (4, 8, Proximity), (1, 7, Phone_match), (2, 7, Email_match)]
   \<and> distinct (map triple (createMatchAlerts always 2 [alice, bob, carol, dave] report0
         (createProximityAlerts geoMetres always 1 [alice, bob, carol, dave] report1 [])))
   \<and> map triple (createProximityAlerts geoMetres always 2 [alice, bob, carol, dave] report0
         (createProximityAlerts geoMetres always 1 [alice, bob, carol, dave] report1 []))
       = [(1, 8, Proximity), (4, 8, Proximity), (1, 7, Proximity), (4, 7, Proximity)]
   \<and> distinct (map triple (createProximityAlerts geoMetres always 2 [alice, bob, carol, dave] report0
         (createProximityAlerts geoMetres always 1 [alice, bob, carol, dave] report1 [])))"
proof -
  let ?users = "[alice, bob, carol, dave]"
  let ?store = "createProximityAlerts geoMetres always 1 ?users report1 []"
  have ids: "map uid ?users = [1, 2, 3, 4]"
    by (simp add: scenario_users)
  have st: "map triple ?store = [(1, 8, Proximity), (4, 8, Proximity)]"
    by (simp add: scenario_proximity_triples)
  have "map alert_fraudReport ?store = map (\<lambda>t. fst (snd t)) (map triple ?store)"
    by (simp add: triple_def comp_def)
  then have "map alert_fraudReport ?store = [8, 8]"
    by (simp only: st) simp
  then have "set (map alert_fraudReport ?store) = {8}"
    by simp
  then have "\<forall>a \<in> set ?store. alert_fraudReport a = 8"
    by (simp only: set_map) blast
  then have other: "\<forall>a \<in> set ?store. alert_fraudReport a \<noteq> rid report0"
    by (simp add: scenario_reports)
  have du: "distinct (map uid ?users)"
    by (simp only: ids) simp
  have ds: "distinct (map triple ?store)"
    by (simp only: st) simp
  have pre: "distinct (map uid ?users) \<and> distinct (map triple ?store)
        \<and> (\<forall>a \<in> set ?store. alert_fraudReport a \<noteq> rid report0)"
    using du ds other by blast
  have "distinct (map triple (createMatchAlerts always 2 ?users report0 ?store))
      \<and> distinct (map triple (createProximityAlerts geoMetres always 2 ?users report0 ?store))"
    using pre createAlerts_keep_unique [of always 2 ?users report0 ?store geoMetres]
    by blast
  then show ?thesis
    by (simp add: scenario_users scenario_match_triples scenario_proximity_triples)
qed

subsection \<open>The radius of proximity alerts\<close>

text \<open>
  C7 (the code differs). Bob is active, has push enabled, subscribes to every fraud type,
  is not the reporter and stands about 22 km from the report, inside his own alert radius
  of 50 km, a value the preferences accept. The query of \<open>createProximityAlerts\<close> keeps
  only users within the fixed 10 km, so Bob receives no alert; Alice, at the place of the
  report, does, and Carol, the reporter, does not.
\<close>

theorem createProximityAlerts_fixed_query_radius:
  "isActive bob \<and> notifications_push bob
   \<and> alertRadius bob = 50
   \<and> calculateDistance (coordinates bob) (location_coordinates report0) = 6371 * pi / 900
   \<and> calculateDistance (coordinates bob) (location_coordinates report0) \<le> alertRadius bob
   \<and> fraudTypes bob = []
   \<and> uid bob \<noteq> reportedBy report0
   \<and> bob \<notin> set (nearbyUsers geoMetres [alice, bob, carol] report0)
   \<and> map alert_user (createProximityAlerts geoMetres always 1 [alice, bob, carol] report0 [])
       = [uid alice]"
proof -
  have far: "bob \<notin> set (nearbyUsers geoMetres [alice, bob, carol] report0)"
    using bob_distance_bounds(1)
    by (simp add: nearbyUsers_iff geoMetres_def scenario_users scenario_reports
        scenario_distances)
  have only: "map alert_user (createProximityAlerts geoMetres always 1 [alice, bob, carol] report0 [])
       = [uid alice]"
    using bob_distance_bounds
    by (simp add: createProximityAlerts_recipients geoMetres_def scenario_distances
        scenario_users scenario_reports)
  show ?thesis
    using far only bob_distance_bounds(2)
    by (simp add: scenario_users scenario_reports scenario_distances)
qed

end
